theory Spec2Isabelle
  imports Main "HOL-Library.Sublist"
begin

section \<open>Library functions the operators rely on\<close>

subsection \<open>functools.partial and joblib\<close>

datatype error =
    MalformedInputError
  | FileNotFoundError
  | NotADirectoryError
  | IsADirectoryError
  | ValueError
  | OtherError string

text \<open>
  \<^verbatim>\<open>partial(utils.reconciliation_data, elements_pubmed=..., elements_clinical_trials=...)\<close>
  fixes the two keyword arguments; the remaining positional argument is the drug.
\<close>

definition partial ::
  "('d \<Rightarrow> 'm list \<Rightarrow> 'm list \<Rightarrow> 'r) \<Rightarrow> 'm list \<Rightarrow> 'm list \<Rightarrow> 'd \<Rightarrow> 'r" where
  "partial f elements_pubmed elements_clinical_trials =
     (\<lambda>drug. f drug elements_pubmed elements_clinical_trials)"

text \<open>\<^verbatim>\<open>delayed(f)(x)\<close> does not call \<open>f\<close>: it records the call as a task.\<close>

definition delayed :: "('d \<Rightarrow> 'r) \<Rightarrow> 'd \<Rightarrow> ('d \<Rightarrow> 'r) \<times> 'd" where
  "delayed f x = (f, x)"

text \<open>
  \<^verbatim>\<open>Parallel(n_jobs=n)(tasks)\<close> runs every task and returns the list of their results in
  the order of the tasks. joblib refuses \<open>n_jobs = 0\<close> with a ValueError; with
  \<open>n_jobs = 1\<close> the tasks are run one after the other in the calling process.
\<close>

definition Parallel :: "int \<Rightarrow> (('d \<Rightarrow> 'r) \<times> 'd) list \<Rightarrow> error + 'r list" where
  "Parallel n_jobs tasks =
     (if n_jobs = 0 then Inl ValueError
      else Inr (map (\<lambda>(f, x). f x) tasks))"

section \<open>The reconciliation step of the gold stage\<close>

text \<open>
  Lines 241 to 250 of \<^verbatim>\<open>PreprossecingGoldData.execute\<close>:
  \<^verbatim>\<open>
  pubmed_valid = pubmed_json_valid_items + pubmed_csv_valid_items
  partial_function_mapping_drug = partial(
      utils.reconciliation_data,
      elements_pubmed=pubmed_valid,
      elements_clinical_trials=clinical_trials_valid_items)
  drugs_reconciliated = Parallel(n_jobs=1)(
      delayed(partial_function_mapping_drug)(drug) for drug in drug_valid_items)
  \<close>
  The function \<^verbatim>\<open>utils.reconciliation_data\<close> is the first parameter.
\<close>

definition drugs_reconciliated ::
  "('d \<Rightarrow> 'm list \<Rightarrow> 'm list \<Rightarrow> 'r) \<Rightarrow> 'd list \<Rightarrow> 'm list \<Rightarrow> 'm list \<Rightarrow> 'm list
     \<Rightarrow> error + 'r list" where
  "drugs_reconciliated reconciliation_data drug_valid_items pubmed_json_valid_items
       pubmed_csv_valid_items clinical_trials_valid_items =
     (let pubmed_valid = pubmed_json_valid_items @ pubmed_csv_valid_items;
          partial_function_mapping_drug =
            partial reconciliation_data pubmed_valid clinical_trials_valid_items
      in Parallel 1 (map (\<lambda>drug. delayed partial_function_mapping_drug drug) drug_valid_items))"

section \<open>Paths (pathlib)\<close>

text \<open>
  A path is the list of its components; \<^verbatim>\<open>p / s\<close> appends one component.
  \<^verbatim>\<open>name\<close> is the last component, \<^verbatim>\<open>parent\<close> drops it, and \<^verbatim>\<open>stem\<close> is the
  name without its last suffix: with \<^verbatim>\<open>i = name.rfind('.')\<close>, the stem is
  \<^verbatim>\<open>name[:i]\<close> when \<^verbatim>\<open>0 < i < len(name) - 1\<close> and the whole name otherwise.
\<close>

type_synonym path = "string list"

definition child :: "path \<Rightarrow> string \<Rightarrow> path" where
  "child p s = p @ [s]"

definition name :: "path \<Rightarrow> string" where
  "name p = (if p = [] then [] else last p)"

definition parent :: "path \<Rightarrow> path" where
  "parent p = butlast p"

fun rfind_from :: "char \<Rightarrow> string \<Rightarrow> int \<Rightarrow> int \<Rightarrow> int" where
  "rfind_from c [] i found = found"
| "rfind_from c (x # xs) i found = rfind_from c xs (i + 1) (if x = c then i else found)"

definition rfind :: "char \<Rightarrow> string \<Rightarrow> int" where
  "rfind c s = rfind_from c s 0 (- 1)"

definition stem :: "path \<Rightarrow> string" where
  "stem p =
     (let n = name p; i = rfind (CHR ''.'') n
      in if 0 < i \<and> i < int (length n) - 1 then take (nat i) n else n)"

text \<open>\<^verbatim>\<open>str(path)\<close> of an absolute path.\<close>

definition str :: "path \<Rightarrow> string" where
  "str p = concat (map (\<lambda>c. ''/'' @ c) p)"

text \<open>\<^verbatim>\<open>s.replace(old, new)\<close> for single characters.\<close>

definition replace :: "char \<Rightarrow> char \<Rightarrow> string \<Rightarrow> string" where
  "replace old new s = map (\<lambda>c. if c = old then new else c) s"

section \<open>The world the operators act on\<close>

text \<open>
  The local file system maps the path of a regular file to the record list stored there
  and holds the set of its directories. Object storage maps a bucket and a blob name to
  the record list uploaded there. \<open>calls\<close> is the sequence of effectful helper calls
  made so far.
  Python values (validated records, raw records, reconciliation results) are one type
  \<open>'x\<close>, as the code is dynamically typed.
\<close>

datatype 'x call =
    SaveFile "'x list" path
  | GcsHandlerBlob string string path string
  | Rmtree path

record 'x world =
  files :: "path \<rightharpoonup> 'x list"
  dirs :: "path set"
  blobs :: "string \<times> string \<rightharpoonup> 'x list"
  calls :: "'x call list"

text \<open>
  A computation takes the world and returns a value or the exception it raised, with the
  world as the computation left it.
\<close>

type_synonym ('x, 'a) io = "'x world \<Rightarrow> (error + 'a) \<times> 'x world"

definition bind_io :: "('x, 'a) io \<Rightarrow> ('a \<Rightarrow> ('x, 'b) io) \<Rightarrow> ('x, 'b) io" where
  "bind_io m f w = (case m w of (Inl e, w') \<Rightarrow> (Inl e, w') | (Inr a, w') \<Rightarrow> f a w')"

definition then_io :: "('x, unit) io \<Rightarrow> ('x, 'b) io \<Rightarrow> ('x, 'b) io" where
  "then_io m k = bind_io m (\<lambda>_. k)"

definition lift_io :: "error + 'a \<Rightarrow> ('x, 'a) io" where
  "lift_io r w = (r, w)"

subsection \<open>The helper module \<^verbatim>\<open>app.utils.utils\<close>\<close>

text \<open>
  The module is not among the sources. Its reader is a parameter: \<open>read_file\<close> gives, for
  a path, a schema kind and the world, the valid and the invalid partition, or the fault
  the read raises. \<open>fault\<close> says which effectful call raises in which world.
\<close>

record 'x utils =
  read_file :: "path \<Rightarrow> string \<Rightarrow> 'x world \<Rightarrow> error + ('x list \<times> 'x list)"
  fault :: "'x call \<Rightarrow> 'x world \<Rightarrow> error option"

definition read_file_io :: "'x utils \<Rightarrow> path \<Rightarrow> string \<Rightarrow> ('x, 'x list \<times> 'x list) io" where
  "read_file_io u file_path type_of_schema w = (read_file u file_path type_of_schema w, w)"

text \<open>The directories above a path, from the root down to its parent.\<close>

definition above :: "path \<Rightarrow> path list" where
  "above p = butlast (prefixes p)"

text \<open>
  Writing a regular file at \<open>p\<close>. It cannot be done where one of the directories above
  \<open>p\<close> is a regular file, nor where \<open>p\<close> is a directory. Once it is done the file
  holds the data and every directory above it exists.
\<close>

definition write_file :: "path \<Rightarrow> 'x list \<Rightarrow> 'x world \<Rightarrow> error + 'x world" where
  "write_file p d w =
     (if \<exists>q \<in> set (above p). files w q \<noteq> None then Inl NotADirectoryError
      else if p \<in> dirs w then Inl IsADirectoryError
      else Inr (w\<lparr>files := (files w)(p \<mapsto> d), dirs := dirs w \<union> set (above p)\<rparr>))"

text \<open>
  Modelled from the spec: \<^verbatim>\<open>utils.save_file\<close> is missing from the sources. It persists
  a record set under the path its caller chose. The operators remove the directory of
  that path after every run and never create it, so the helper is taken to create the
  directories that are missing and to write the file; whatever else makes it raise is
  a fault of \<open>fault\<close>.
\<close>

definition save_file :: "'x utils \<Rightarrow> 'x list \<Rightarrow> path \<Rightarrow> ('x, unit) io" where
  "save_file u data file_path w =
     (case fault u (SaveFile data file_path) w of
        Some e \<Rightarrow> (Inl e, w)
      | None \<Rightarrow>
          (case write_file file_path data w of
             Inl e \<Rightarrow> (Inl e, w)
           | Inr w' \<Rightarrow> (Inr (), w'\<lparr>calls := calls w @ [SaveFile data file_path]\<rparr>)))"

text \<open>
  Modelled from the spec: \<^verbatim>\<open>utils.gcs_handler_blob\<close> is missing from the sources. By the
  operators' documentation, \<^verbatim>\<open>push\<close> uploads the local file to the blob
  \<open>gcs_file_name\<close> of the bucket and \<^verbatim>\<open>pull\<close> downloads that blob to the local file.
  A file or blob that is not there, and any other operation, is a fault.
\<close>

definition gcs_handler_blob ::
  "'x utils \<Rightarrow> string \<Rightarrow> string \<Rightarrow> path \<Rightarrow> string \<Rightarrow> ('x, unit) io" where
  "gcs_handler_blob u type_of_operation bucket_name local_file_name gcs_file_name w =
     (let c = GcsHandlerBlob type_of_operation bucket_name local_file_name gcs_file_name
      in case fault u c w of
        Some e \<Rightarrow> (Inl e, w)
      | None \<Rightarrow>
          if type_of_operation = ''push'' then
            (case files w local_file_name of
               None \<Rightarrow> (Inl FileNotFoundError, w)
             | Some d \<Rightarrow>
                 (Inr (), w\<lparr>blobs := (blobs w)((bucket_name, gcs_file_name) \<mapsto> d),
                            calls := calls w @ [c]\<rparr>))
          else if type_of_operation = ''pull'' then
            (case blobs w (bucket_name, gcs_file_name) of
               None \<Rightarrow> (Inl FileNotFoundError, w)
             | Some d \<Rightarrow>
                 (case write_file local_file_name d w of
                    Inl e \<Rightarrow> (Inl e, w)
                  | Inr w' \<Rightarrow> (Inr (), w'\<lparr>calls := calls w @ [c]\<rparr>)))
          else (Inl ValueError, w))"

text \<open>
  \<^verbatim>\<open>shutil.rmtree(p)\<close> deletes the directory \<open>p\<close> with everything below it. It raises
  NotADirectoryError when \<open>p\<close> is a regular file and FileNotFoundError when there is
  nothing at \<open>p\<close>.
\<close>

definition rmtree :: "'x utils \<Rightarrow> path \<Rightarrow> ('x, unit) io" where
  "rmtree u p w =
     (case fault u (Rmtree p) w of
        Some e \<Rightarrow> (Inl e, w)
      | None \<Rightarrow>
          if files w p \<noteq> None then (Inl NotADirectoryError, w)
          else if p \<notin> dirs w then (Inl FileNotFoundError, w)
          else
            (Inr (), w\<lparr>files := (\<lambda>q. if prefix p q then None else files w q),
                       dirs := {d \<in> dirs w. \<not> prefix p d},
                       calls := calls w @ [Rmtree p]\<rparr>))"

section \<open>The operators\<close>

record PreprossecingSilverData =
  type_of_schema :: string
  bucket_name :: string
  local_file_name :: path
  prefix_gcs_file_name :: string

record PreprossecingGoldData =
  gold_bucket_name :: string
  path_elements_drug :: path
  path_elements_pubmed_json :: path
  path_elements_pubmed_csv :: path
  path_elements_clinical_trials :: path

definition error_path_local :: "PreprossecingSilverData \<Rightarrow> path" where
  "error_path_local self =
     child (child (parent (local_file_name self)) ''error'')
       (stem (local_file_name self) @ ''_error.json'')"

definition valid_path_local :: "PreprossecingSilverData \<Rightarrow> path" where
  "valid_path_local self =
     child (child (parent (local_file_name self)) ''valid'')
       (stem (local_file_name self) @ ''_valid.json'')"

definition error_path_gcs :: "PreprossecingSilverData \<Rightarrow> string" where
  "error_path_gcs self = prefix_gcs_file_name self @ ''/'' @ name (error_path_local self)"

definition valid_path_gcs :: "PreprossecingSilverData \<Rightarrow> string" where
  "valid_path_gcs self = prefix_gcs_file_name self @ ''/'' @ name (valid_path_local self)"

text \<open>\<^verbatim>\<open>PreprossecingSilverData.execute\<close>, lines 130 to 166.\<close>

definition silver_execute :: "'x utils \<Rightarrow> PreprossecingSilverData \<Rightarrow> ('x, unit) io" where
  "silver_execute u self =
     bind_io (read_file_io u (local_file_name self) (type_of_schema self))
       (\<lambda>(valid_items, invalid_items).
     then_io (save_file u invalid_items (error_path_local self))
    (then_io (save_file u valid_items (valid_path_local self))
    (then_io (gcs_handler_blob u ''push'' (bucket_name self)
                (error_path_local self) (error_path_gcs self))
    (then_io (gcs_handler_blob u ''push'' (bucket_name self)
                (valid_path_local self) (valid_path_gcs self))
    (then_io (rmtree u (parent (error_path_local self)))
             (rmtree u (parent (valid_path_local self))))))))"

text \<open>
  \<^verbatim>\<open>PreprossecingGoldData.execute\<close>, lines 224 to 265. \<open>here\<close> is the directory of the
  operator module, \<^verbatim>\<open>Path(__file__).resolve().parent\<close>.
\<close>

definition reconciliated_data_path :: "path \<Rightarrow> path" where
  "reconciliated_data_path here =
     child (child here ''reconciliated'') ''drug_reconciliated.json''"

definition gold_execute ::
  "'x utils \<Rightarrow> ('x \<Rightarrow> 'x list \<Rightarrow> 'x list \<Rightarrow> 'x) \<Rightarrow> path \<Rightarrow> PreprossecingGoldData
     \<Rightarrow> ('x, unit) io" where
  "gold_execute u reconciliation_data here self =
     bind_io (read_file_io u (path_elements_drug self) (stem (path_elements_drug self)))
       (\<lambda>(drug_valid_items, _).
     bind_io (read_file_io u (path_elements_pubmed_json self)
                (stem (path_elements_pubmed_json self)))
       (\<lambda>(pubmed_json_valid_items, _).
     bind_io (read_file_io u (path_elements_pubmed_csv self)
                (stem (path_elements_pubmed_csv self)))
       (\<lambda>(pubmed_csv_valid_items, _).
     bind_io (read_file_io u (path_elements_clinical_trials self)
                (stem (path_elements_clinical_trials self)))
       (\<lambda>(clinical_trials_valid_items, _).
     bind_io (lift_io (drugs_reconciliated reconciliation_data drug_valid_items
                pubmed_json_valid_items pubmed_csv_valid_items clinical_trials_valid_items))
       (\<lambda>reconciled.
     then_io (save_file u reconciled (reconciliated_data_path here))
    (then_io (gcs_handler_blob u ''push'' (gold_bucket_name self)
                (reconciliated_data_path here) (name (reconciliated_data_path here)))
             (rmtree u (parent (reconciliated_data_path here)))))))))"

section \<open>The workflow graph of \<^verbatim>\<open>dag.py\<close>\<close>

text \<open>
  \<open>root\<close> is \<^verbatim>\<open>Path(__file__).resolve().parents[1]\<close>, the directory above the
  \<^verbatim>\<open>dags\<close> directory.
\<close>

definition path_file_clinical_trials :: "path \<Rightarrow> path" where
  "path_file_clinical_trials root = child (child root ''file'') ''clinical_trials.csv''"

definition path_drugs :: "path \<Rightarrow> path" where
  "path_drugs root = child (child root ''file'') ''drugs.csv''"

definition path_file_pubmed_csv :: "path \<Rightarrow> path" where
  "path_file_pubmed_csv root = child (child root ''file'') ''pubmed.csv''"

definition path_file_pubmed_json :: "path \<Rightarrow> path" where
  "path_file_pubmed_json root = child (child root ''file'') ''pubmed.json''"

definition all_paths_local :: "path \<Rightarrow> path set" where
  "all_paths_local root =
     {path_file_clinical_trials root, path_drugs root,
      path_file_pubmed_csv root, path_file_pubmed_json root}"

record PreprossecingBronzeData =
  type_of_operation :: string
  bronze_bucket_name :: string
  bronze_local_file_name :: string
  gcs_file_name :: string

datatype operator =
    DummyOperator
  | Bronze PreprossecingBronzeData
  | Silver PreprossecingSilverData
  | Gold PreprossecingGoldData

record task =
  task_id :: string
  operator :: operator

text \<open>
  A graph holds its tasks in the order of their creation and the set of its edges, each
  from a task's id to the id of a task directly downstream of it.
\<close>

record dag =
  tasks :: "task list"
  edges :: "(string \<times> string) set"

text \<open>\<^verbatim>\<open>a >> b >> c\<close> makes each task upstream of the next one.\<close>

fun rshift :: "task list \<Rightarrow> (string \<times> string) set" where
  "rshift (a # b # ts) = insert (task_id a, task_id b) (rshift (b # ts))"
| "rshift ts = {}"

definition start_point :: task where
  "start_point = \<lparr>task_id = ''start_point'', operator = DummyOperator\<rparr>"

definition end_point :: task where
  "end_point = \<lparr>task_id = ''end_point'', operator = DummyOperator\<rparr>"

definition task_push_gold_data :: "path \<Rightarrow> task" where
  "task_push_gold_data root =
     \<lparr>task_id = ''push_gold_data_to_gcs_reconcialted_data'',
      operator = Gold
        \<lparr>gold_bucket_name = ''servier-gold'',
         path_elements_drug = path_drugs root,
         path_elements_pubmed_json = path_file_pubmed_json root,
         path_elements_pubmed_csv = path_file_pubmed_csv root,
         path_elements_clinical_trials = path_file_clinical_trials root\<rparr>\<rparr>"

definition task_push_bronze_data :: "path \<Rightarrow> task" where
  "task_push_bronze_data path_local_file =
     \<lparr>task_id =
        replace (CHR ''.'') (CHR ''_'') (''push_raw_data_to_gcs_'' @ name path_local_file),
      operator = Bronze
        \<lparr>type_of_operation = ''push'',
         bronze_bucket_name = ''servier-bronze'',
         bronze_local_file_name = str path_local_file,
         gcs_file_name = stem path_local_file @ ''/'' @ name path_local_file\<rparr>\<rparr>"

definition task_push_silver_data :: "path \<Rightarrow> task" where
  "task_push_silver_data path_local_file =
     \<lparr>task_id =
        replace (CHR ''.'') (CHR ''_'') (''push_silver_data_to_gcs_'' @ name path_local_file),
      operator = Silver
        \<lparr>type_of_schema = stem path_local_file,
         bucket_name = ''servier-silver'',
         local_file_name = path_local_file,
         prefix_gcs_file_name = stem path_local_file\<rparr>\<rparr>"

text \<open>
  One pass of the loop over \<^verbatim>\<open>all_paths_local\<close>: two new tasks and the chain
  \<^verbatim>\<open>start_point >> bronze >> silver >> gold >> end_point\<close>.
\<close>

definition loop_body :: "path \<Rightarrow> path \<Rightarrow> dag \<Rightarrow> dag" where
  "loop_body root path_local_file g =
     \<lparr>tasks = tasks g @ [task_push_bronze_data path_local_file,
                          task_push_silver_data path_local_file],
      edges = edges g \<union>
        rshift [start_point, task_push_bronze_data path_local_file,
                task_push_silver_data path_local_file, task_push_gold_data root,
                end_point]\<rparr>"

text \<open>
  The graph, for the order \<open>ps\<close> in which the loop meets the elements of the set
  \<^verbatim>\<open>all_paths_local\<close>.
\<close>

definition dag_servier :: "path \<Rightarrow> path list \<Rightarrow> dag" where
  "dag_servier root ps =
     fold (loop_body root) ps
       \<lparr>tasks = [start_point, end_point, task_push_gold_data root], edges = {}\<rparr>"

text \<open>
  The scheduler starts a task only when every task directly upstream of it has completed
  (the default trigger rule). \<open>run_order E completed ts\<close>: after the tasks
  \<open>completed\<close>, the tasks \<open>ts\<close> can run to completion one after the other in this
  order.
\<close>

fun run_order :: "(string \<times> string) set \<Rightarrow> string list \<Rightarrow> string list \<Rightarrow> bool" where
  "run_order E completed [] = True"
| "run_order E completed (t # ts) =
     ((\<forall>e \<in> E. snd e = t \<longrightarrow> fst e \<in> set completed)
      \<and> run_order E (completed @ [t]) ts)"

section \<open>The reconciliation engine\<close>

text \<open>
  Modelled from the spec: \<^verbatim>\<open>utils.reconciliation_data\<close> and the record schemas are
  missing from the sources. The entities are those of the spec's data model.
\<close>

record drug =
  atccode :: string
  drug_name :: string

record mention =
  mention_id :: string
  title :: string
  journal :: string
  date :: string
  origin :: string

record provenance =
  p_title :: string
  p_date :: string
  p_journal :: string
  p_origin :: string

record reconciliation_result =
  result_drug :: drug
  journals :: "(string \<times> string list) list"
  mentions :: "provenance list"

text \<open>
  A string is the list of its code points, each of them below 256. On these,
  \<^verbatim>\<open>s.lower()\<close> maps each code point on its own: the capitals \<open>A\<close> to \<open>Z\<close>
  (65 to 90) and the accented capitals 192 to 222, the multiplication sign 215 left out,
  move up by 32, and every other code point stays.
\<close>

definition lower_char :: "char \<Rightarrow> char" where
  "lower_char c =
     (let n = (of_char c :: nat)
      in if (65 \<le> n \<and> n \<le> 90) \<or> (192 \<le> n \<and> n \<le> 222 \<and> n \<noteq> 215)
         then char_of (n + 32) else c)"

definition lower :: "string \<Rightarrow> string" where
  "lower s = map lower_char s"

text \<open>\<^verbatim>\<open>sub in s\<close>: \<open>sub\<close> occurs in \<open>s\<close> as a contiguous substring.\<close>

fun contains :: "string \<Rightarrow> string \<Rightarrow> bool" where
  "contains sub [] = (sub = [])"
| "contains sub (c # s) = (prefix sub (c # s) \<or> contains sub s)"

text \<open>
  Modelled from the spec: a drug record is valid when neither its identifier nor its name
  is empty.
\<close>

definition valid_drug :: "drug \<Rightarrow> bool" where
  "valid_drug d = (atccode d \<noteq> [] \<and> drug_name d \<noteq> [])"

text \<open>
  Modelled from the spec: the match rule. A mention matches a drug when the drug's name,
  case-folded, occurs as a substring of the mention's title, case-folded; an empty drug
  name never matches.
\<close>

definition matches :: "drug \<Rightarrow> mention \<Rightarrow> bool" where
  "matches d m =
     (drug_name d \<noteq> [] \<and> contains (lower (drug_name d)) (lower (title m)))"

definition provenance_of :: "mention \<Rightarrow> provenance" where
  "provenance_of m =
     \<lparr>p_title = title m, p_date = date m, p_journal = journal m, p_origin = origin m\<rparr>"

text \<open>
  Modelled from the spec: for each journal seen, the distinct dates on which it published
  a matching mention.
\<close>

definition group_by_journal :: "mention list \<Rightarrow> (string \<times> string list) list" where
  "group_by_journal ms =
     map (\<lambda>j. (j, remdups (map date (filter (\<lambda>m. journal m = j) ms))))
       (remdups (map journal ms))"

text \<open>
  Modelled from the spec: \<^verbatim>\<open>reconcile(drug, pubmed_mentions, clinical_mentions)\<close>
  scans both mention sequences, keeps every matching mention as a provenance entry
  tagged with its origin, and groups the matches by journal.
\<close>

definition reconciliation_data ::
  "drug \<Rightarrow> mention list \<Rightarrow> mention list \<Rightarrow> reconciliation_result" where
  "reconciliation_data d elements_pubmed elements_clinical_trials =
     (let matched = filter (matches d) (elements_pubmed @ elements_clinical_trials)
      in \<lparr>result_drug = d,
          journals = group_by_journal matched,
          mentions = map provenance_of matched\<rparr>)"

text \<open>A result includes a mention when the mention's provenance entry is among its mentions.\<close>

definition includes_mention :: "reconciliation_result \<Rightarrow> mention \<Rightarrow> bool" where
  "includes_mention r m = (provenance_of m \<in> set (mentions r))"

section \<open>Example inputs\<close>

text \<open>
  A reader over records that are natural numbers: it knows the four source files of the
  pipeline under their schema kinds and raises on anything else. No effectful call
  faults.
\<close>

definition example_utils :: "nat utils" where
  "example_utils =
     \<lparr>read_file = (\<lambda>p s w.
        if name p = ''drugs.csv'' \<and> s = ''drugs'' then Inr ([10, 11], [12])
        else if name p = ''pubmed.json'' \<and> s = ''pubmed'' then Inr ([20], [21])
        else if name p = ''pubmed.csv'' \<and> s = ''pubmed'' then Inr ([20, 30], [])
        else if name p = ''clinical_trials.csv'' \<and> s = ''clinical_trials''
          then Inr ([40], [41])
        else Inl MalformedInputError),
      fault = (\<lambda>c w. None)\<rparr>"

text \<open>A world that holds the four source files and nothing else.\<close>

definition example_world :: "nat world" where
  "example_world =
     \<lparr>files = [[''srv'', ''file'', ''drugs.csv''] \<mapsto> [10, 11, 12],
               [''srv'', ''file'', ''pubmed.json''] \<mapsto> [20, 21],
               [''srv'', ''file'', ''pubmed.csv''] \<mapsto> [20, 30],
               [''srv'', ''file'', ''clinical_trials.csv''] \<mapsto> [40, 41]],
      dirs = {[], [''srv''], [''srv'', ''file'']},
      blobs = Map.empty, calls = []\<rparr>"

definition example_silver :: "string \<Rightarrow> PreprossecingSilverData" where
  "example_silver file_name =
     \<lparr>type_of_schema = stem [''srv'', ''file'', file_name],
      bucket_name = ''servier-silver'',
      local_file_name = [''srv'', ''file'', file_name],
      prefix_gcs_file_name = stem [''srv'', ''file'', file_name]\<rparr>"

definition example_gold :: PreprossecingGoldData where
  "example_gold =
     \<lparr>gold_bucket_name = ''servier-gold'',
      path_elements_drug = [''srv'', ''file'', ''drugs.csv''],
      path_elements_pubmed_json = [''srv'', ''file'', ''pubmed.json''],
      path_elements_pubmed_csv = [''srv'', ''file'', ''pubmed.csv''],
      path_elements_clinical_trials = [''srv'', ''file'', ''clinical_trials.csv'']\<rparr>"

definition example_here :: path where
  "example_here = [''srv'', ''dags'', ''custom_operator'']"

text \<open>A stand-in for the reconciliation function on natural numbers.\<close>

definition example_reconciliation :: "nat \<Rightarrow> nat list \<Rightarrow> nat list \<Rightarrow> nat" where
  "example_reconciliation d pm ct = d + sum_list pm + 2 * sum_list ct"



text \<open>One order in which the loop of \<^verbatim>\<open>dag.py\<close> can meet the four source files.\<close>

definition example_order :: "path list" where
  "example_order =
     [path_file_clinical_trials [''srv''], path_drugs [''srv''],
      path_file_pubmed_csv [''srv''], path_file_pubmed_json [''srv'']]"

text \<open>
  Two drugs, the second with an accented capital (201) in its name, and three mentions:
  one whose title has the first drug's name in lower case, one whose title has the second
  drug's name in lower case (233 for 201), and one that names neither.
\<close>

definition example_drugs :: "drug list" where
  "example_drugs =
     [\<lparr>atccode = ''d1'', drug_name = ''ASPIRIN''\<rparr>,
      \<lparr>atccode = ''d2'', drug_name = CHR 0xC9 # ''PHEDRINE''\<rparr>]"

definition mention_aspirin :: mention where
  "mention_aspirin =
     \<lparr>mention_id = ''1'', title = ''Low-dose aspirin reduces risk'', journal = ''NEJM'',
      date = ''2020-01-01'', origin = ''pubmed''\<rparr>"

definition mention_ephedrine :: mention where
  "mention_ephedrine =
     \<lparr>mention_id = ''2'', title = ''Use of '' @ CHR 0xE9 # ''phedrine in sport'',
      journal = ''The Lancet'', date = ''2020-02-01'', origin = ''pubmed''\<rparr>"

definition mention_other :: mention where
  "mention_other =
     \<lparr>mention_id = ''NCT1'', title = ''Betamethasone trial'', journal = ''JAMA'',
      date = ''2020-03-01'', origin = ''clinical_trials''\<rparr>"

section \<open>Properties of the reconciliation step\<close>

lemma Parallel_map_delayed:
  "n \<noteq> 0 \<Longrightarrow> Parallel n (map (\<lambda>x. delayed f x) xs) = Inr (map f xs)"
  by (simp add: Parallel_def delayed_def comp_def)

lemma drugs_reconciliated_eq:
  "drugs_reconciliated rd ds pj pc ct = Inr (map (\<lambda>d. rd d (pj @ pc) ct) ds)"
  by (simp add: drugs_reconciliated_def Let_def Parallel_map_delayed partial_def)

text \<open>
  C4. The reconciliation of the gold stage is one fixed function, the reconciliation
  function closed over the shared pubmed and clinical-trials sequences, handed as one task
  per valid drug to a job pool whose degree of parallelism is the constant 1. The pool
  does not fail, and what it returns is the sequential map of that function over the
  drugs.
\<close>

theorem C4_gold_reconciliation_is_sequential_map:
  "drugs_reconciliated rd ds pj pc ct =
     Parallel 1 (map (\<lambda>drug. delayed (partial rd (pj @ pc) ct) drug) ds)
   \<and> Parallel 1 (map (\<lambda>drug. delayed (partial rd (pj @ pc) ct) drug) ds) =
     Inr (map (partial rd (pj @ pc) ct) ds)
   \<and> drugs_reconciliated rd ds pj pc ct = Inr (map (\<lambda>drug. rd drug (pj @ pc) ct) ds)"
proof (intro conjI)
  show "drugs_reconciliated rd ds pj pc ct =
     Parallel 1 (map (\<lambda>drug. delayed (partial rd (pj @ pc) ct) drug) ds)"
    by (simp add: drugs_reconciliated_def Let_def)
  show "Parallel 1 (map (\<lambda>drug. delayed (partial rd (pj @ pc) ct) drug) ds) =
     Inr (map (partial rd (pj @ pc) ct) ds)"
    by (rule Parallel_map_delayed) simp
  show "drugs_reconciliated rd ds pj pc ct = Inr (map (\<lambda>drug. rd drug (pj @ pc) ct) ds)"
    by (rule drugs_reconciliated_eq)
qed


section \<open>Properties of the reconciliation engine\<close>

lemma contains_iff_sublist: "contains xs ys \<longleftrightarrow> sublist xs ys"
  by (induction ys) (auto simp: sublist_Cons_right)

lemma contains_iff: "contains xs ys \<longleftrightarrow> (\<exists>ps ss. ys = ps @ xs @ ss)"
  by (simp add: contains_iff_sublist sublist_def)

lemma includes_reconciliation_data:
  assumes "m \<in> set pm \<union> set ct"
  shows "includes_mention (reconciliation_data d pm ct) m \<longleftrightarrow> matches d m"
proof
  assume "includes_mention (reconciliation_data d pm ct) m"
  then obtain m' where m': "matches d m'" "provenance_of m' = provenance_of m"
    by (fastforce simp: includes_mention_def reconciliation_data_def Let_def)
  from m'(2) have "title m' = title m"
    by (simp add: provenance_of_def)
  with m'(1) show "matches d m" by (simp add: matches_def)
next
  assume "matches d m"
  with assms show "includes_mention (reconciliation_data d pm ct) m"
    by (auto simp: includes_mention_def reconciliation_data_def Let_def)
qed

lemma lower_occurrence:
  "(\<exists>before after. lower s = before @ lower n @ after) \<longleftrightarrow>
   (\<exists>before occurrence after. s = before @ occurrence @ after \<and> lower occurrence = lower n)"
proof
  assume "\<exists>before after. lower s = before @ lower n @ after"
  then obtain b a where "map lower_char s = b @ lower n @ a"
    by (auto simp: lower_def)
  then obtain us vs where s: "s = us @ vs" and vs: "lower n @ a = map lower_char vs"
    unfolding map_eq_append_conv by blast
  from vs obtain occ after where "vs = occ @ after" "lower n = map lower_char occ"
    unfolding append_eq_map_conv by blast
  with s show "\<exists>before occurrence after.
      s = before @ occurrence @ after \<and> lower occurrence = lower n"
    by (auto simp: lower_def)
next
  assume "\<exists>before occurrence after.
      s = before @ occurrence @ after \<and> lower occurrence = lower n"
  then obtain b occ a where "s = b @ occ @ a" "lower occ = lower n"
    by blast
  then have "lower s = lower b @ lower n @ lower a"
    by (simp add: lower_def)
  then show "\<exists>before after. lower s = before @ lower n @ after"
    by blast
qed

lemma lower_letters:
  "lower ''ABCDEFGHIJKLMNOPQRSTUVWXYZ'' = ''abcdefghijklmnopqrstuvwxyz''"
  "lower (map char_of ([192..<215] @ [216..<223] :: nat list)) =
     map char_of ([224..<247] @ [248..<255] :: nat list)"
  by code_simp+

lemma lower_char_other:
  "\<not> (65 \<le> (of_char c :: nat) \<and> (of_char c :: nat) \<le> 90) \<Longrightarrow>
   \<not> (192 \<le> (of_char c :: nat) \<and> (of_char c :: nat) \<le> 222 \<and> (of_char c :: nat) \<noteq> 215) \<Longrightarrow>
   lower_char c = c"
  by (auto simp: lower_char_def Let_def)

text \<open>
  C1. Match substring law. Let the gold stage reconcile the valid drugs \<open>ds\<close> against
  the pubmed mentions \<open>pj @ pc\<close> and the clinical-trials mentions \<open>ct\<close>. For every
  valid drug at an index \<open>i\<close> and every mention \<open>m\<close> of the pubmed or clinical-trials
  inputs, the result at index \<open>i\<close> includes \<open>m\<close> if and only if the drug's name,
  case-folded, occurs as a substring of the title of \<open>m\<close>, case-folded; that is, if
  and only if some substring of the title is the name up to case. Case folding sends the
  capitals \<open>A\<close> to \<open>Z\<close> and the accented capitals 192 to 222 (215 apart) to their small
  letters and leaves every other code point below 256 as it is.
\<close>

theorem C1_match_substring_law:
  assumes "i < length ds" and "valid_drug (ds ! i)" and "m \<in> set (pj @ pc) \<union> set ct"
  shows "(\<exists>rs. drugs_reconciliated reconciliation_data ds pj pc ct = Inr rs \<and>
           rs ! i = reconciliation_data (ds ! i) (pj @ pc) ct \<and>
           (includes_mention (rs ! i) m \<longleftrightarrow>
              contains (lower (drug_name (ds ! i))) (lower (title m))) \<and>
           (includes_mention (rs ! i) m \<longleftrightarrow>
              (\<exists>before after.
                 lower (title m) = before @ lower (drug_name (ds ! i)) @ after)) \<and>
           (includes_mention (rs ! i) m \<longleftrightarrow>
              (\<exists>before occurrence after.
                 title m = before @ occurrence @ after \<and>
                 lower occurrence = lower (drug_name (ds ! i)))))
    \<and> lower ''ABCDEFGHIJKLMNOPQRSTUVWXYZ'' = ''abcdefghijklmnopqrstuvwxyz''
    \<and> lower (map char_of ([192..<215] @ [216..<223] :: nat list)) =
        map char_of ([224..<247] @ [248..<255] :: nat list)
    \<and> (\<forall>c. \<not> (65 \<le> (of_char c :: nat) \<and> (of_char c :: nat) \<le> 90) \<and>
            \<not> (192 \<le> (of_char c :: nat) \<and> (of_char c :: nat) \<le> 222
               \<and> (of_char c :: nat) \<noteq> 215) \<longrightarrow>
            lower [c] = [c])"
proof -
  let ?rs = "map (\<lambda>d. reconciliation_data d (pj @ pc) ct) ds"
  have run: "drugs_reconciliated reconciliation_data ds pj pc ct = Inr ?rs"
    by (rule drugs_reconciliated_eq)
  have at_i: "?rs ! i = reconciliation_data (ds ! i) (pj @ pc) ct"
    using assms(1) by simp
  have "includes_mention (reconciliation_data (ds ! i) (pj @ pc) ct) m \<longleftrightarrow> matches (ds ! i) m"
    using assms(3) by (rule includes_reconciliation_data)
  also have "\<dots> \<longleftrightarrow> contains (lower (drug_name (ds ! i))) (lower (title m))"
    using assms(2) by (simp add: matches_def valid_drug_def)
  finally have law: "includes_mention (?rs ! i) m \<longleftrightarrow>
      contains (lower (drug_name (ds ! i))) (lower (title m))"
    by (simp only: at_i)
  have sub: "contains (lower (drug_name (ds ! i))) (lower (title m)) \<longleftrightarrow>
      (\<exists>before after. lower (title m) = before @ lower (drug_name (ds ! i)) @ after)"
    by (rule contains_iff)
  have occ: "(\<exists>before after. lower (title m) = before @ lower (drug_name (ds ! i)) @ after) \<longleftrightarrow>
      (\<exists>before occurrence after. title m = before @ occurrence @ after \<and>
         lower occurrence = lower (drug_name (ds ! i)))"
    by (rule lower_occurrence)
  have first: "\<exists>rs. drugs_reconciliated reconciliation_data ds pj pc ct = Inr rs \<and>
           rs ! i = reconciliation_data (ds ! i) (pj @ pc) ct \<and>
           (includes_mention (rs ! i) m \<longleftrightarrow>
              contains (lower (drug_name (ds ! i))) (lower (title m))) \<and>
           (includes_mention (rs ! i) m \<longleftrightarrow>
              (\<exists>before after.
                 lower (title m) = before @ lower (drug_name (ds ! i)) @ after)) \<and>
           (includes_mention (rs ! i) m \<longleftrightarrow>
              (\<exists>before occurrence after.
                 title m = before @ occurrence @ after \<and>
                 lower occurrence = lower (drug_name (ds ! i))))"
    using run at_i law sub occ by (intro exI [of _ ?rs]) (simp only: simp_thms)
  have others: "\<forall>c. \<not> (65 \<le> (of_char c :: nat) \<and> (of_char c :: nat) \<le> 90) \<and>
            \<not> (192 \<le> (of_char c :: nat) \<and> (of_char c :: nat) \<le> 222
               \<and> (of_char c :: nat) \<noteq> 215) \<longrightarrow>
            lower [c] = [c]"
    by (simp add: lower_def lower_char_other)
  from first lower_letters others show ?thesis
    by (intro conjI)
qed

lemma example_matches:
  "contains (lower ''ASPIRIN'') (lower ''Low-dose aspirin reduces risk'')"
  "\<not> contains (lower ''ASPIRIN'') (lower ''Betamethasone trial'')"
  "contains (lower (CHR 0xC9 # ''PHEDRINE''))
     (lower (''Use of '' @ CHR 0xE9 # ''phedrine in sport''))"
  "\<not> contains (lower (CHR 0xC9 # ''PHEDRINE'')) (lower ''Low-dose aspirin reduces risk'')"
  by code_simp+

theorem C1_match_substring_law_witness:
  "(0::nat) < length example_drugs \<and> (1::nat) < length example_drugs
   \<and> valid_drug (example_drugs ! 0) \<and> valid_drug (example_drugs ! 1)
   \<and> mention_aspirin \<in> set ([mention_aspirin] @ [mention_ephedrine]) \<union> set [mention_other]
   \<and> mention_ephedrine \<in> set ([mention_aspirin] @ [mention_ephedrine]) \<union> set [mention_other]
   \<and> mention_other \<in> set ([mention_aspirin] @ [mention_ephedrine]) \<union> set [mention_other]
   \<and> (\<exists>rs. drugs_reconciliated reconciliation_data example_drugs
              [mention_aspirin] [mention_ephedrine] [mention_other] = Inr rs
         \<and> includes_mention (rs ! 0) mention_aspirin
         \<and> \<not> includes_mention (rs ! 0) mention_other
         \<and> includes_mention (rs ! 1) mention_ephedrine
         \<and> \<not> includes_mention (rs ! 1) mention_aspirin)"
proof -
  let ?run = "drugs_reconciliated reconciliation_data example_drugs
              [mention_aspirin] [mention_ephedrine] [mention_other]"
  let ?rs = "map (\<lambda>d. reconciliation_data d ([mention_aspirin] @ [mention_ephedrine])
      [mention_other]) example_drugs"
  have run: "?run = Inr ?rs"
    by (rule drugs_reconciliated_eq)
  have l0: "(0::nat) < length example_drugs" and l1: "(1::nat) < length example_drugs"
    by (simp_all add: example_drugs_def)
  have v0: "valid_drug (example_drugs ! 0)" and v1: "valid_drug (example_drugs ! 1)"
    by (simp_all add: example_drugs_def valid_drug_def)
  have ma: "mention_aspirin \<in> set ([mention_aspirin] @ [mention_ephedrine]) \<union> set [mention_other]"
    and me: "mention_ephedrine \<in> set ([mention_aspirin] @ [mention_ephedrine]) \<union> set [mention_other]"
    and mo: "mention_other \<in> set ([mention_aspirin] @ [mention_ephedrine]) \<union> set [mention_other]"
    by simp_all
  have names: "drug_name (example_drugs ! 0) = ''ASPIRIN''"
    "drug_name (example_drugs ! 1) = CHR 0xC9 # ''PHEDRINE''"
    by (simp_all add: example_drugs_def)
  have titles: "title mention_aspirin = ''Low-dose aspirin reduces risk''"
    "title mention_ephedrine = ''Use of '' @ CHR 0xE9 # ''phedrine in sport''"
    "title mention_other = ''Betamethasone trial''"
    by (simp_all add: mention_aspirin_def mention_ephedrine_def mention_other_def)
  from C1_match_substring_law [OF l0 v0 ma] run example_matches(1)
  have a: "includes_mention (?rs ! 0) mention_aspirin"
    by (auto simp only: names titles sum.inject)
  from C1_match_substring_law [OF l0 v0 mo] run example_matches(2)
  have b: "\<not> includes_mention (?rs ! 0) mention_other"
    by (auto simp only: names titles sum.inject)
  from C1_match_substring_law [OF l1 v1 me] run example_matches(3)
  have c: "includes_mention (?rs ! 1) mention_ephedrine"
    by (auto simp only: names titles sum.inject)
  from C1_match_substring_law [OF l1 v1 ma] run example_matches(4)
  have d: "\<not> includes_mention (?rs ! 1) mention_aspirin"
    by (auto simp only: names titles sum.inject)
  from run a b c d l0 l1 v0 v1 ma me mo show ?thesis
    by blast
qed

section \<open>Properties of the silver stage\<close>

lemma bind_io_Inr:
  "bind_io m f w = (Inr b, w'') \<longleftrightarrow> (\<exists>a w'. m w = (Inr a, w') \<and> f a w' = (Inr b, w''))"
  by (auto simp: bind_io_def split: prod.splits sum.splits)

lemma then_io_Inr:
  "then_io m k w = (Inr b, w'') \<longleftrightarrow> (\<exists>w'. m w = (Inr (), w') \<and> k w' = (Inr b, w''))"
  by (simp add: then_io_def bind_io_Inr)

lemma read_file_io_Inr:
  "read_file_io u p s w = (Inr r, w') \<longleftrightarrow> read_file u p s w = Inr r \<and> w' = w"
  by (auto simp: read_file_io_def)

lemma set_above: "q \<in> set (above p) \<longleftrightarrow> strict_prefix q p"
proof (cases p rule: rev_cases)
  case Nil
  then show ?thesis by (simp add: above_def)
next
  case (snoc ys y)
  then show ?thesis by (auto simp: above_def prefixes_snoc strict_prefix_def)
qed

lemma save_file_Inr:
  "save_file u d p w = (Inr x, w') \<longleftrightarrow>
     fault u (SaveFile d p) w = None \<and> (\<forall>q \<in> set (above p). files w q = None) \<and>
     p \<notin> dirs w \<and>
     w' = w\<lparr>files := (files w)(p \<mapsto> d), dirs := dirs w \<union> set (above p),
            calls := calls w @ [SaveFile d p]\<rparr>"
  by (auto simp: save_file_def write_file_def split: option.splits)

lemma push_Inr:
  "gcs_handler_blob u ''push'' b l g w = (Inr x, w') \<longleftrightarrow>
     fault u (GcsHandlerBlob ''push'' b l g) w = None \<and>
     (\<exists>d. files w l = Some d \<and>
       w' = w\<lparr>blobs := (blobs w)((b, g) \<mapsto> d),
              calls := calls w @ [GcsHandlerBlob ''push'' b l g]\<rparr>)"
  by (auto simp: gcs_handler_blob_def Let_def split: option.splits)

lemma rmtree_Inr:
  "rmtree u p w = (Inr x, w') \<longleftrightarrow>
     fault u (Rmtree p) w = None \<and> files w p = None \<and> p \<in> dirs w \<and>
     w' = w\<lparr>files := (\<lambda>q. if prefix p q then None else files w q),
            dirs := {d \<in> dirs w. \<not> prefix p d},
            calls := calls w @ [Rmtree p]\<rparr>"
  by (auto simp: rmtree_def split: option.splits)

lemma name_child [simp]: "name (child p s) = s"
  by (simp add: name_def child_def)

lemma parent_child [simp]: "parent (child p s) = p"
  by (simp add: parent_def child_def)

lemma prefix_parent: "prefix (parent p) p"
  by (cases p rule: rev_cases) (simp_all add: parent_def)

lemma parent_above: "p \<noteq> [] \<Longrightarrow> parent p \<in> set (above p)"
  by (cases p rule: rev_cases) (simp_all add: set_above parent_def strict_prefix_def)

lemma silver_execute_Inr:
  assumes "silver_execute u self w = (Inr x, w')"
  obtains valid_items invalid_items where
    "read_file u (local_file_name self) (type_of_schema self) w = Inr (valid_items, invalid_items)"
    "files w' = (\<lambda>q. if prefix (parent (valid_path_local self)) q
                        \<or> prefix (parent (error_path_local self)) q then None
                      else files w q)"
    "dirs w' \<subseteq> {d. \<not> prefix (parent (error_path_local self)) d
                    \<and> \<not> prefix (parent (valid_path_local self)) d}"
    "blobs w' = (blobs w)((bucket_name self, error_path_gcs self) \<mapsto> invalid_items,
                          (bucket_name self, valid_path_gcs self) \<mapsto> valid_items)"
    "calls w' = calls w @
              [SaveFile invalid_items (error_path_local self),
               SaveFile valid_items (valid_path_local self),
               GcsHandlerBlob ''push'' (bucket_name self) (error_path_local self)
                 (error_path_gcs self),
               GcsHandlerBlob ''push'' (bucket_name self) (valid_path_local self)
                 (valid_path_gcs self),
               Rmtree (parent (error_path_local self)),
               Rmtree (parent (valid_path_local self))]"
    "files w (parent (error_path_local self)) = None"
    "files w (parent (valid_path_local self)) = None"
proof -
  let ?ep = "error_path_local self" and ?vp = "valid_path_local self"
  have ne: "?ep \<noteq> ?vp" "parent ?vp \<noteq> ?ep"
    by (simp_all add: error_path_local_def valid_path_local_def)
       (simp_all add: child_def)
  have nonempty: "?ep \<noteq> []" "?vp \<noteq> []"
    by (simp_all add: error_path_local_def valid_path_local_def child_def)
  from assms obtain valid_items invalid_items w1 w2 w3 w4 w5 where
    r: "read_file u (local_file_name self) (type_of_schema self) w = Inr (valid_items, invalid_items)"
    and s1: "save_file u invalid_items ?ep w = (Inr (), w1)"
    and s2: "save_file u valid_items ?vp w1 = (Inr (), w2)"
    and p1: "gcs_handler_blob u ''push'' (bucket_name self) ?ep (error_path_gcs self) w2 = (Inr (), w3)"
    and p2: "gcs_handler_blob u ''push'' (bucket_name self) ?vp (valid_path_gcs self) w3 = (Inr (), w4)"
    and r1: "rmtree u (parent ?ep) w4 = (Inr (), w5)"
    and r2: "rmtree u (parent ?vp) w5 = (Inr (), w')"
    unfolding silver_execute_def
    by (auto simp: bind_io_Inr then_io_Inr read_file_io_Inr split: prod.splits)
  from s1 have w1: "w1 = w\<lparr>files := (files w)(?ep \<mapsto> invalid_items),
      dirs := dirs w \<union> set (above ?ep),
      calls := calls w @ [SaveFile invalid_items ?ep]\<rparr>"
    and a1: "\<forall>q \<in> set (above ?ep). files w q = None"
    by (simp_all add: save_file_Inr)
  from s2 have w2: "w2 = w1\<lparr>files := (files w1)(?vp \<mapsto> valid_items),
      dirs := dirs w1 \<union> set (above ?vp),
      calls := calls w1 @ [SaveFile valid_items ?vp]\<rparr>"
    and a2: "\<forall>q \<in> set (above ?vp). files w1 q = None"
    by (simp_all add: save_file_Inr)
  from a1 parent_above [OF nonempty(1)] have n1: "files w (parent ?ep) = None"
    by blast
  from a2 parent_above [OF nonempty(2)] have "files w1 (parent ?vp) = None"
    by blast
  with ne(2) have n2: "files w (parent ?vp) = None"
    by (simp add: w1)
  have f2e: "files w2 ?ep = Some invalid_items"
    and f2v: "files w2 ?vp = Some valid_items"
    using ne(1) by (simp_all add: w1 w2)
  from p1 f2e have w3: "w3 = w2\<lparr>blobs := (blobs w2)((bucket_name self, error_path_gcs self) \<mapsto> invalid_items),
      calls := calls w2 @ [GcsHandlerBlob ''push'' (bucket_name self) ?ep (error_path_gcs self)]\<rparr>"
    by (auto simp: push_Inr)
  from p2 f2v have w4: "w4 = w3\<lparr>blobs := (blobs w3)((bucket_name self, valid_path_gcs self) \<mapsto> valid_items),
      calls := calls w3 @ [GcsHandlerBlob ''push'' (bucket_name self) ?vp (valid_path_gcs self)]\<rparr>"
    by (auto simp: push_Inr w3)
  from r1 have w5: "w5 = w4\<lparr>files := (\<lambda>q. if prefix (parent ?ep) q then None else files w4 q),
      dirs := {d \<in> dirs w4. \<not> prefix (parent ?ep) d},
      calls := calls w4 @ [Rmtree (parent ?ep)]\<rparr>"
    by (simp add: rmtree_Inr)
  from r2 have w6: "w' = w5\<lparr>files := (\<lambda>q. if prefix (parent ?vp) q then None else files w5 q),
      dirs := {d \<in> dirs w5. \<not> prefix (parent ?vp) d},
      calls := calls w5 @ [Rmtree (parent ?vp)]\<rparr>"
    by (simp add: rmtree_Inr)
  have pe: "prefix (parent ?ep) ?ep" and pv: "prefix (parent ?vp) ?vp"
    by (simp_all add: prefix_parent)
  have fs: "files w' = (\<lambda>q. if prefix (parent ?vp) q \<or> prefix (parent ?ep) q then None
                      else files w q)"
    unfolding w6 w5 w4 w3 w2 w1 using pe pv by (auto simp: fun_eq_iff)
  have ds: "dirs w' \<subseteq> {d. \<not> prefix (parent ?ep) d \<and> \<not> prefix (parent ?vp) d}"
    unfolding w6 w5 by auto
  have bs: "blobs w' = (blobs w)((bucket_name self, error_path_gcs self) \<mapsto> invalid_items,
                          (bucket_name self, valid_path_gcs self) \<mapsto> valid_items)"
    unfolding w6 w5 w4 w3 w2 w1 by simp
  have cs: "calls w' = calls w @
              [SaveFile invalid_items ?ep, SaveFile valid_items ?vp,
               GcsHandlerBlob ''push'' (bucket_name self) ?ep (error_path_gcs self),
               GcsHandlerBlob ''push'' (bucket_name self) ?vp (valid_path_gcs self),
               Rmtree (parent ?ep), Rmtree (parent ?vp)]"
    unfolding w6 w5 w4 w3 w2 w1 by simp
  from r fs ds bs cs n1 n2 show thesis by (rule that)
qed

text \<open>
  C6. A successful run of the silver stage read the two partitions of its source file,
  saved the invalid one locally as \<open>error/<stem>_error.json\<close> and the valid one as
  \<open>valid/<stem>_valid.json\<close> beside the source file, pushed each to the configured
  bucket under \<open><prefix_gcs_file_name>/<local file name>\<close>, the invalid one first, and
  both blobs hold their partition afterwards.
\<close>

theorem C6_silver_persists_both_partitions:
  assumes "silver_execute u self w = (Inr (), w')"
  shows "\<exists>valid_items invalid_items.
    read_file u (local_file_name self) (type_of_schema self) w =
      Inr (valid_items, invalid_items) \<and>
    calls w' = calls w @
      [SaveFile invalid_items
         (parent (local_file_name self) @
            [''error'', stem (local_file_name self) @ ''_error.json'']),
       SaveFile valid_items
         (parent (local_file_name self) @
            [''valid'', stem (local_file_name self) @ ''_valid.json'']),
       GcsHandlerBlob ''push'' (bucket_name self)
         (parent (local_file_name self) @
            [''error'', stem (local_file_name self) @ ''_error.json''])
         (prefix_gcs_file_name self @ ''/'' @ stem (local_file_name self) @ ''_error.json''),
       GcsHandlerBlob ''push'' (bucket_name self)
         (parent (local_file_name self) @
            [''valid'', stem (local_file_name self) @ ''_valid.json''])
         (prefix_gcs_file_name self @ ''/'' @ stem (local_file_name self) @ ''_valid.json''),
       Rmtree (parent (local_file_name self) @ [''error'']),
       Rmtree (parent (local_file_name self) @ [''valid''])] \<and>
    blobs w' (bucket_name self,
        prefix_gcs_file_name self @ ''/'' @ stem (local_file_name self) @ ''_error.json'') =
      Some invalid_items \<and>
    blobs w' (bucket_name self,
        prefix_gcs_file_name self @ ''/'' @ stem (local_file_name self) @ ''_valid.json'') =
      Some valid_items"
proof -
  from assms obtain valid_items invalid_items where
    r: "read_file u (local_file_name self) (type_of_schema self) w =
          Inr (valid_items, invalid_items)"
    and bs: "blobs w' = (blobs w)((bucket_name self, error_path_gcs self) \<mapsto> invalid_items,
                          (bucket_name self, valid_path_gcs self) \<mapsto> valid_items)"
    and cs: "calls w' = calls w @
              [SaveFile invalid_items (error_path_local self),
               SaveFile valid_items (valid_path_local self),
               GcsHandlerBlob ''push'' (bucket_name self) (error_path_local self)
                 (error_path_gcs self),
               GcsHandlerBlob ''push'' (bucket_name self) (valid_path_local self)
                 (valid_path_gcs self),
               Rmtree (parent (error_path_local self)),
               Rmtree (parent (valid_path_local self))]"
    by (rule silver_execute_Inr)
  have paths:
    "error_path_local self =
       parent (local_file_name self) @ [''error'', stem (local_file_name self) @ ''_error.json'']"
    "valid_path_local self =
       parent (local_file_name self) @ [''valid'', stem (local_file_name self) @ ''_valid.json'']"
    "error_path_gcs self =
       prefix_gcs_file_name self @ ''/'' @ stem (local_file_name self) @ ''_error.json''"
    "valid_path_gcs self =
       prefix_gcs_file_name self @ ''/'' @ stem (local_file_name self) @ ''_valid.json''"
    by (simp_all add: error_path_local_def valid_path_local_def error_path_gcs_def
        valid_path_gcs_def child_def[symmetric])
       (simp_all add: child_def)
  have parent2: "\<And>p a b. parent (p @ [a, b]) = p @ [a]"
    by (simp add: parent_def butlast_append)
  show ?thesis
    using r by (simp add: bs cs paths parent2)
qed

lemma example_stems:
  "stem [''srv'', ''file'', ''drugs.csv''] = ''drugs''"
  "stem [''srv'', ''file'', ''pubmed.json''] = ''pubmed''"
  "stem [''srv'', ''file'', ''pubmed.csv''] = ''pubmed''"
  "stem [''srv'', ''file'', ''clinical_trials.csv''] = ''clinical_trials''"
  by (simp_all add: stem_def name_def rfind_def)

lemma example_silver_run:
  "fst (silver_execute example_utils (example_silver ''pubmed.json'') example_world) = Inr ()"
  by (simp add: silver_execute_def bind_io_def then_io_def read_file_io_def save_file_def
      write_file_def above_def gcs_handler_blob_def rmtree_def error_path_local_def
      valid_path_local_def error_path_gcs_def valid_path_gcs_def child_def parent_def name_def
      example_utils_def example_silver_def example_world_def example_stems)

theorem C6_silver_persists_both_partitions_witness:
  "fst (silver_execute example_utils (example_silver ''pubmed.json'') example_world) = Inr ()
   \<and> blobs (snd (silver_execute example_utils (example_silver ''pubmed.json'') example_world))
        (''servier-silver'', ''pubmed/pubmed_error.json'') = Some [21]
   \<and> blobs (snd (silver_execute example_utils (example_silver ''pubmed.json'') example_world))
        (''servier-silver'', ''pubmed/pubmed_valid.json'') = Some [20]"
proof -
  let ?run = "silver_execute example_utils (example_silver ''pubmed.json'') example_world"
  have ok: "fst ?run = Inr ()"
    by (rule example_silver_run)
  then have h: "?run = (Inr (), snd ?run)"
    by (simp add: prod_eq_iff)
  have rd: "read_file example_utils (local_file_name (example_silver ''pubmed.json''))
       (type_of_schema (example_silver ''pubmed.json'')) example_world = Inr ([20], [21])"
    by (simp add: example_utils_def example_silver_def example_stems name_def)
  from C6_silver_persists_both_partitions [OF h] rd ok show ?thesis
    by (simp add: example_silver_def example_stems)
qed

text \<open>
  C7. When the read of the source file raises, the silver stage ends with that very
  fault and leaves the world as it found it: no file saved, nothing pushed, no call
  made.
\<close>

theorem C7_silver_read_fault_aborts:
  assumes "read_file u (local_file_name self) (type_of_schema self) w = Inl e"
  shows "silver_execute u self w = (Inl e, w)"
  using assms by (simp add: silver_execute_def bind_io_def read_file_io_def)

theorem C7_silver_read_fault_aborts_witness:
  "read_file example_utils (local_file_name (example_silver ''broken.csv''))
     (type_of_schema (example_silver ''broken.csv'')) example_world = Inl MalformedInputError
   \<and> silver_execute example_utils (example_silver ''broken.csv'') example_world =
       (Inl MalformedInputError, example_world)"
proof -
  have rd: "read_file example_utils (local_file_name (example_silver ''broken.csv''))
     (type_of_schema (example_silver ''broken.csv'')) example_world = Inl MalformedInputError"
    by (simp add: example_utils_def example_silver_def name_def)
  from C7_silver_read_fault_aborts [OF rd] rd show ?thesis
    by simp
qed

section \<open>Properties of the gold stage\<close>

lemma lift_io_Inr: "lift_io r w = (Inr a, w') \<longleftrightarrow> r = Inr a \<and> w' = w"
  by (auto simp: lift_io_def)

lemma gold_execute_Inr:
  assumes "gold_execute u rd here self w = (Inr x, w')"
  obtains dv di jv ji cv ci tv ti where
    "read_file u (path_elements_drug self) (stem (path_elements_drug self)) w = Inr (dv, di)"
    "read_file u (path_elements_pubmed_json self) (stem (path_elements_pubmed_json self)) w
       = Inr (jv, ji)"
    "read_file u (path_elements_pubmed_csv self) (stem (path_elements_pubmed_csv self)) w
       = Inr (cv, ci)"
    "read_file u (path_elements_clinical_trials self)
       (stem (path_elements_clinical_trials self)) w = Inr (tv, ti)"
    "files w' = (\<lambda>q. if prefix (child here ''reconciliated'') q then None else files w q)"
    "dirs w' \<subseteq> {d. \<not> prefix (child here ''reconciliated'') d}"
    "blobs w' = (blobs w)((gold_bucket_name self, ''drug_reconciliated.json'') \<mapsto>
                        map (\<lambda>d. rd d (jv @ cv) tv) dv)"
    "calls w' = calls w @
              [SaveFile (map (\<lambda>d. rd d (jv @ cv) tv) dv) (reconciliated_data_path here),
               GcsHandlerBlob ''push'' (gold_bucket_name self) (reconciliated_data_path here)
                 ''drug_reconciliated.json'',
               Rmtree (child here ''reconciliated'')]"
proof -
  let ?p = "reconciliated_data_path here"
  from assms obtain dv di jv ji cv ci tv ti rs w1 w2 where
    r1: "read_file u (path_elements_drug self) (stem (path_elements_drug self)) w = Inr (dv, di)"
    and r2: "read_file u (path_elements_pubmed_json self) (stem (path_elements_pubmed_json self)) w
       = Inr (jv, ji)"
    and r3: "read_file u (path_elements_pubmed_csv self) (stem (path_elements_pubmed_csv self)) w
       = Inr (cv, ci)"
    and r4: "read_file u (path_elements_clinical_trials self)
       (stem (path_elements_clinical_trials self)) w = Inr (tv, ti)"
    and rs: "drugs_reconciliated rd dv jv cv tv = Inr rs"
    and s: "save_file u rs ?p w = (Inr (), w1)"
    and p: "gcs_handler_blob u ''push'' (gold_bucket_name self) ?p (name ?p) w1 = (Inr (), w2)"
    and t: "rmtree u (parent ?p) w2 = (Inr (), w')"
    unfolding gold_execute_def
    by (auto simp: bind_io_Inr then_io_Inr read_file_io_Inr lift_io_Inr split: prod.splits)
  from rs have rs_eq: "rs = map (\<lambda>d. rd d (jv @ cv) tv) dv"
    by (simp add: drugs_reconciliated_eq)
  have nm: "name ?p = ''drug_reconciliated.json''" "parent ?p = child here ''reconciliated''"
    by (simp_all add: reconciliated_data_path_def)
  from s have w1: "w1 = w\<lparr>files := (files w)(?p \<mapsto> rs), dirs := dirs w \<union> set (above ?p),
      calls := calls w @ [SaveFile rs ?p]\<rparr>"
    by (simp add: save_file_Inr)
  from p have w2: "w2 = w1\<lparr>blobs := (blobs w1)((gold_bucket_name self, name ?p) \<mapsto> rs),
      calls := calls w1 @ [GcsHandlerBlob ''push'' (gold_bucket_name self) ?p (name ?p)]\<rparr>"
    by (auto simp: push_Inr w1)
  from t have w3: "w' = w2\<lparr>files := (\<lambda>q. if prefix (parent ?p) q then None else files w2 q),
      dirs := {d \<in> dirs w2. \<not> prefix (parent ?p) d},
      calls := calls w2 @ [Rmtree (parent ?p)]\<rparr>"
    by (simp add: rmtree_Inr)
  have pp: "prefix (child here ''reconciliated'') ?p"
    using prefix_parent [of ?p] by (simp add: nm)
  have fs: "files w' = (\<lambda>q. if prefix (child here ''reconciliated'') q then None
      else files w q)"
    unfolding w3 w2 w1 nm using pp by (auto simp: fun_eq_iff)
  have ds: "dirs w' \<subseteq> {d. \<not> prefix (child here ''reconciliated'') d}"
    unfolding w3 nm by auto
  have bs: "blobs w' = (blobs w)((gold_bucket_name self, ''drug_reconciliated.json'') \<mapsto>
                        map (\<lambda>d. rd d (jv @ cv) tv) dv)"
    unfolding w3 w2 w1 nm rs_eq by simp
  have cs: "calls w' = calls w @
              [SaveFile (map (\<lambda>d. rd d (jv @ cv) tv) dv) (reconciliated_data_path here),
               GcsHandlerBlob ''push'' (gold_bucket_name self) (reconciliated_data_path here)
                 ''drug_reconciliated.json'',
               Rmtree (child here ''reconciliated'')]"
    unfolding w3 w2 w1 nm rs_eq by simp
  from r1 r2 r3 r4 fs ds bs cs show thesis by (rule that)
qed

lemma example_gold_run:
  "fst (gold_execute example_utils example_reconciliation example_here example_gold
          example_world) = Inr ()"
  by (simp add: gold_execute_def bind_io_def then_io_def read_file_io_def lift_io_def
      save_file_def write_file_def above_def gcs_handler_blob_def rmtree_def
      reconciliated_data_path_def drugs_reconciliated_eq child_def parent_def name_def
      example_utils_def example_gold_def example_world_def example_here_def example_stems)

lemma example_reads:
  "read_file example_utils [''srv'', ''file'', ''drugs.csv''] ''drugs'' example_world
      = Inr ([10, 11], [12])"
  "read_file example_utils [''srv'', ''file'', ''pubmed.json''] ''pubmed'' example_world
      = Inr ([20], [21])"
  "read_file example_utils [''srv'', ''file'', ''pubmed.csv''] ''pubmed'' example_world
      = Inr ([20, 30], [])"
  "read_file example_utils [''srv'', ''file'', ''clinical_trials.csv''] ''clinical_trials''
       example_world = Inr ([40], [41])"
  by (simp_all add: example_utils_def name_def)

text \<open>
  C2. Order preservation. A successful run of the gold stage read the valid drugs \<open>dv\<close>
  and pushed a reconciled sequence that has the length of \<open>dv\<close> and whose element at
  each index is the reconciliation of the drug at that index.
\<close>

theorem C2_gold_preserves_drug_order:
  assumes "gold_execute u rd here self w = (Inr (), w')"
  shows "\<exists>dv di jv ji cv ci tv ti rs.
    read_file u (path_elements_drug self) (stem (path_elements_drug self)) w = Inr (dv, di) \<and>
    read_file u (path_elements_pubmed_json self) (stem (path_elements_pubmed_json self)) w
      = Inr (jv, ji) \<and>
    read_file u (path_elements_pubmed_csv self) (stem (path_elements_pubmed_csv self)) w
      = Inr (cv, ci) \<and>
    read_file u (path_elements_clinical_trials self)
      (stem (path_elements_clinical_trials self)) w = Inr (tv, ti) \<and>
    drugs_reconciliated rd dv jv cv tv = Inr rs \<and>
    blobs w' (gold_bucket_name self, ''drug_reconciliated.json'') = Some rs \<and>
    length rs = length dv \<and>
    (\<forall>i < length dv. rs ! i = rd (dv ! i) (jv @ cv) tv)"
proof -
  from assms obtain dv di jv ji cv ci tv ti where
    r: "read_file u (path_elements_drug self) (stem (path_elements_drug self)) w = Inr (dv, di)"
    "read_file u (path_elements_pubmed_json self) (stem (path_elements_pubmed_json self)) w
       = Inr (jv, ji)"
    "read_file u (path_elements_pubmed_csv self) (stem (path_elements_pubmed_csv self)) w
       = Inr (cv, ci)"
    "read_file u (path_elements_clinical_trials self)
       (stem (path_elements_clinical_trials self)) w = Inr (tv, ti)"
    and w': "blobs w' = (blobs w)((gold_bucket_name self, ''drug_reconciliated.json'') \<mapsto>
                        map (\<lambda>d. rd d (jv @ cv) tv) dv)"
    by (rule gold_execute_Inr)
  let ?rs = "map (\<lambda>d. rd d (jv @ cv) tv) dv"
  have "drugs_reconciliated rd dv jv cv tv = Inr ?rs"
    by (rule drugs_reconciliated_eq)
  moreover have "blobs w' (gold_bucket_name self, ''drug_reconciliated.json'') = Some ?rs"
    by (simp add: w')
  moreover have "length ?rs = length dv \<and> (\<forall>i < length dv. ?rs ! i = rd (dv ! i) (jv @ cv) tv)"
    by simp
  ultimately show ?thesis
    using r by blast
qed

theorem C2_gold_preserves_drug_order_witness:
  "fst (gold_execute example_utils example_reconciliation example_here example_gold
          example_world) = Inr ()
   \<and> blobs (snd (gold_execute example_utils example_reconciliation example_here example_gold
          example_world)) (''servier-gold'', ''drug_reconciliated.json'') =
       Some [example_reconciliation 10 [20, 20, 30] [40],
             example_reconciliation 11 [20, 20, 30] [40]]"
proof -
  let ?run = "gold_execute example_utils example_reconciliation example_here example_gold
          example_world"
  have ok: "fst ?run = Inr ()"
    by (rule example_gold_run)
  then have h: "?run = (Inr (), snd ?run)"
    by (simp add: prod_eq_iff)
  note rd = example_reads
  from C2_gold_preserves_drug_order [OF h] obtain dv di jv ji cv ci tv ti rs where
    "read_file example_utils (path_elements_drug example_gold)
       (stem (path_elements_drug example_gold)) example_world = Inr (dv, di)"
    "read_file example_utils (path_elements_pubmed_json example_gold)
       (stem (path_elements_pubmed_json example_gold)) example_world = Inr (jv, ji)"
    "read_file example_utils (path_elements_pubmed_csv example_gold)
       (stem (path_elements_pubmed_csv example_gold)) example_world = Inr (cv, ci)"
    "read_file example_utils (path_elements_clinical_trials example_gold)
       (stem (path_elements_clinical_trials example_gold)) example_world = Inr (tv, ti)"
    "blobs (snd ?run) (gold_bucket_name example_gold, ''drug_reconciliated.json'') = Some rs"
    "length rs = length dv"
    "\<forall>i < length dv. rs ! i = example_reconciliation (dv ! i) (jv @ cv) tv"
    by blast
  then have "dv = [10, 11]" "jv = [20]" "cv = [20, 30]" "tv = [40]"
    and b: "blobs (snd ?run) (''servier-gold'', ''drug_reconciliated.json'') = Some rs"
    and l: "length rs = length dv"
    and n: "\<forall>i < length dv. rs ! i = example_reconciliation (dv ! i) (jv @ cv) tv"
    by (simp_all add: example_gold_def example_stems rd)
  then have "length rs = 2" "rs ! 0 = example_reconciliation 10 [20, 20, 30] [40]"
    "rs ! 1 = example_reconciliation 11 [20, 20, 30] [40]"
    by simp_all
  then have "rs = [example_reconciliation 10 [20, 20, 30] [40],
             example_reconciliation 11 [20, 20, 30] [40]]"
    by (simp add: list_eq_iff_nth_eq less_Suc_eq numeral_2_eq_2)
  with b ok show ?thesis by simp
qed

lemma save_file_read_upd [simp]: "save_file (u\<lparr>read_file := R\<rparr>) = save_file u"
  by (simp add: save_file_def fun_eq_iff)

lemma gcs_handler_blob_read_upd [simp]:
  "gcs_handler_blob (u\<lparr>read_file := R\<rparr>) = gcs_handler_blob u"
  by (simp add: gcs_handler_blob_def fun_eq_iff)

lemma rmtree_read_upd [simp]: "rmtree (u\<lparr>read_file := R\<rparr>) = rmtree u"
  by (simp add: rmtree_def fun_eq_iff)

lemma bind_read_valid:
  "bind_io (read_file_io u p s) (\<lambda>(valid_items, invalid_items). k valid_items) w =
     (case read_file u p s w of Inl e \<Rightarrow> (Inl e, w) | Inr r \<Rightarrow> k (fst r) w)"
  by (simp add: bind_io_def read_file_io_def split: sum.splits prod.splits)

lemma bind_read_other_invalid:
  "bind_io (read_file_io
      (u\<lparr>read_file := \<lambda>p s w. map_sum id (\<lambda>(valid_items, invalid_items).
          (valid_items, other p s w)) (read_file u p s w)\<rparr>) p s)
      (\<lambda>(valid_items, invalid_items). k valid_items) =
   bind_io (read_file_io u p s) (\<lambda>(valid_items, invalid_items). k valid_items)"
  by (rule ext) (simp add: bind_read_valid split: sum.splits prod.splits)

lemma gold_other_invalid:
  "gold_execute
     (u\<lparr>read_file := \<lambda>p s w. map_sum id (\<lambda>(valid_items, invalid_items).
          (valid_items, other p s w)) (read_file u p s w)\<rparr>) rd here self =
   gold_execute u rd here self"
  unfolding gold_execute_def
  by (simp add: bind_read_other_invalid)



lemma gold_execute_pushed:
  assumes "gold_execute u rd here self w = (Inr (), w')"
  shows "\<exists>dv di jv ji cv ci tv ti.
    read_file u (path_elements_drug self) (stem (path_elements_drug self)) w = Inr (dv, di) \<and>
    read_file u (path_elements_pubmed_json self) (stem (path_elements_pubmed_json self)) w
      = Inr (jv, ji) \<and>
    read_file u (path_elements_pubmed_csv self) (stem (path_elements_pubmed_csv self)) w
      = Inr (cv, ci) \<and>
    read_file u (path_elements_clinical_trials self)
      (stem (path_elements_clinical_trials self)) w = Inr (tv, ti) \<and>
    blobs w' (gold_bucket_name self, ''drug_reconciliated.json'') =
      Some (map (\<lambda>drug. rd drug (jv @ cv) tv) dv)"
proof -
  from assms obtain dv di jv ji cv ci tv ti where
    r: "read_file u (path_elements_drug self) (stem (path_elements_drug self)) w = Inr (dv, di)"
    "read_file u (path_elements_pubmed_json self) (stem (path_elements_pubmed_json self)) w
       = Inr (jv, ji)"
    "read_file u (path_elements_pubmed_csv self) (stem (path_elements_pubmed_csv self)) w
       = Inr (cv, ci)"
    "read_file u (path_elements_clinical_trials self)
       (stem (path_elements_clinical_trials self)) w = Inr (tv, ti)"
    and w': "blobs w' = (blobs w)((gold_bucket_name self, ''drug_reconciliated.json'') \<mapsto>
                        map (\<lambda>d. rd d (jv @ cv) tv) dv)"
    by (rule gold_execute_Inr)
  have "blobs w' (gold_bucket_name self, ''drug_reconciliated.json'') =
      Some (map (\<lambda>drug. rd drug (jv @ cv) tv) dv)"
    by (simp add: w')
  with r show ?thesis by blast
qed

text \<open>
  C3. In a successful run of the gold stage, the pubmed input of every drug's
  reconciliation is the valid PubMed-JSON records followed by the valid PubMed-CSV
  records: the pushed result is the map of the reconciliation function applied to that
  concatenation, and a reconciliation function that returns its pubmed input returns the
  concatenation for every drug. Its length is the sum of the two lengths and every
  record occurs in it as often as in the two partitions together, so nothing is
  deduplicated.
\<close>

theorem C3_pubmed_input_is_concatenation:
  assumes "gold_execute u rd here self w = (Inr (), w')"
  shows "\<exists>dv di jv ji cv ci tv ti.
    read_file u (path_elements_drug self) (stem (path_elements_drug self)) w = Inr (dv, di) \<and>
    read_file u (path_elements_pubmed_json self) (stem (path_elements_pubmed_json self)) w
      = Inr (jv, ji) \<and>
    read_file u (path_elements_pubmed_csv self) (stem (path_elements_pubmed_csv self)) w
      = Inr (cv, ci) \<and>
    read_file u (path_elements_clinical_trials self)
      (stem (path_elements_clinical_trials self)) w = Inr (tv, ti) \<and>
    blobs w' (gold_bucket_name self, ''drug_reconciliated.json'') =
      Some (map (\<lambda>drug. rd drug (jv @ cv) tv) dv) \<and>
    drugs_reconciliated (\<lambda>drug elements_pubmed elements_clinical_trials. elements_pubmed)
      dv jv cv tv = Inr (replicate (length dv) (jv @ cv)) \<and>
    length (jv @ cv) = length jv + length cv \<and>
    (\<forall>m. count_list (jv @ cv) m = count_list jv m + count_list cv m)"
proof -
  have probe: "drugs_reconciliated
      (\<lambda>drug elements_pubmed elements_clinical_trials. elements_pubmed) dv jv cv tv =
      Inr (replicate (length dv) (jv @ cv))" for dv :: "'a list" and jv cv tv :: "'a list"
    by (simp add: drugs_reconciliated_eq map_replicate_const)
  from gold_execute_pushed [OF assms] show ?thesis
    by (simp add: probe)
qed

theorem C3_pubmed_input_is_concatenation_witness:
  "fst (gold_execute example_utils example_reconciliation example_here example_gold
          example_world) = Inr ()
   \<and> read_file example_utils (path_elements_pubmed_json example_gold)
       (stem (path_elements_pubmed_json example_gold)) example_world = Inr ([20], [21])
   \<and> read_file example_utils (path_elements_pubmed_csv example_gold)
       (stem (path_elements_pubmed_csv example_gold)) example_world = Inr ([20, 30], [])
   \<and> blobs (snd (gold_execute example_utils example_reconciliation example_here example_gold
          example_world)) (''servier-gold'', ''drug_reconciliated.json'') =
       Some (map (\<lambda>drug. example_reconciliation drug [20, 20, 30] [40]) [10, 11])
   \<and> count_list ([20] @ [20, 30]) (20::nat) = 2"
proof -
  let ?run = "gold_execute example_utils example_reconciliation example_here example_gold
          example_world"
  have ok: "fst ?run = Inr ()"
    by (rule example_gold_run)
  then have h: "?run = (Inr (), snd ?run)"
    by (simp add: prod_eq_iff)
  from C3_pubmed_input_is_concatenation [OF h] ok show ?thesis
    by (simp add: example_gold_def example_stems example_reads)
qed

text \<open>
  C5. The gold stage uses the valid partition of each of its four reads and nothing
  else: whatever is put in place of the invalid partitions the reader returns, the stage
  behaves the same, and what a successful run pushes is computed from the first
  components of the four reads.
\<close>

theorem C5_gold_discards_invalid_partitions:
  "gold_execute
     (u\<lparr>read_file := \<lambda>p s w. map_sum id (\<lambda>(valid_items, invalid_items).
          (valid_items, other p s w)) (read_file u p s w)\<rparr>) rd here self =
   gold_execute u rd here self
   \<and> (gold_execute u rd here self w = (Inr (), w') \<longrightarrow>
       (\<exists>r_drug r_json r_csv r_trials.
          read_file u (path_elements_drug self) (stem (path_elements_drug self)) w
            = Inr r_drug \<and>
          read_file u (path_elements_pubmed_json self)
            (stem (path_elements_pubmed_json self)) w = Inr r_json \<and>
          read_file u (path_elements_pubmed_csv self)
            (stem (path_elements_pubmed_csv self)) w = Inr r_csv \<and>
          read_file u (path_elements_clinical_trials self)
            (stem (path_elements_clinical_trials self)) w = Inr r_trials \<and>
          blobs w' (gold_bucket_name self, ''drug_reconciliated.json'') =
            Some (map (\<lambda>drug. rd drug (fst r_json @ fst r_csv) (fst r_trials))
                    (fst r_drug))))"
proof (intro conjI impI)
  show "gold_execute
     (u\<lparr>read_file := \<lambda>p s w. map_sum id (\<lambda>(valid_items, invalid_items).
          (valid_items, other p s w)) (read_file u p s w)\<rparr>) rd here self =
   gold_execute u rd here self"
    by (rule gold_other_invalid)
next
  assume "gold_execute u rd here self w = (Inr (), w')"
  from gold_execute_pushed [OF this] show
    "\<exists>r_drug r_json r_csv r_trials.
          read_file u (path_elements_drug self) (stem (path_elements_drug self)) w
            = Inr r_drug \<and>
          read_file u (path_elements_pubmed_json self)
            (stem (path_elements_pubmed_json self)) w = Inr r_json \<and>
          read_file u (path_elements_pubmed_csv self)
            (stem (path_elements_pubmed_csv self)) w = Inr r_csv \<and>
          read_file u (path_elements_clinical_trials self)
            (stem (path_elements_clinical_trials self)) w = Inr r_trials \<and>
          blobs w' (gold_bucket_name self, ''drug_reconciliated.json'') =
            Some (map (\<lambda>drug. rd drug (fst r_json @ fst r_csv) (fst r_trials))
                    (fst r_drug))"
    by fastforce
qed

theorem C5_gold_discards_invalid_partitions_witness:
  "fst (gold_execute example_utils example_reconciliation example_here example_gold
          example_world) = Inr ()
   \<and> gold_execute
       (example_utils\<lparr>read_file := \<lambda>p s w. map_sum id (\<lambda>(valid_items, invalid_items).
          (valid_items, [7, 8, 9])) (read_file example_utils p s w)\<rparr>)
       example_reconciliation example_here example_gold =
     gold_execute example_utils example_reconciliation example_here example_gold
   \<and> blobs (snd (gold_execute example_utils example_reconciliation example_here example_gold
          example_world)) (''servier-gold'', ''drug_reconciliated.json'') =
       Some (map (\<lambda>drug. example_reconciliation drug [20, 20, 30] [40]) [10, 11])"
proof -
  let ?run = "gold_execute example_utils example_reconciliation example_here example_gold
          example_world"
  have ok: "fst ?run = Inr ()"
    by (rule example_gold_run)
  then have h: "?run = (Inr (), snd ?run)"
    by (simp add: prod_eq_iff)
  from C5_gold_discards_invalid_partitions
    [where u = example_utils and other = "\<lambda>p s w. [7, 8, 9]"
       and rd = example_reconciliation and here = example_here and self = example_gold
       and w = example_world and w' = "snd ?run"] h ok
  show ?thesis
    by (simp add: example_gold_def example_stems example_reads)
qed







section \<open>Properties of the workflow graph\<close>

lemma fold_loop_body_tasks:
  "tasks (fold (loop_body root) ps g) =
     tasks g @ concat (map (\<lambda>p. [task_push_bronze_data p, task_push_silver_data p]) ps)"
  by (induction ps arbitrary: g) (simp_all add: loop_body_def)

lemma fold_loop_body_edges:
  "edges (fold (loop_body root) ps g) =
     edges g \<union> (\<Union>p \<in> set ps.
       rshift [start_point, task_push_bronze_data p, task_push_silver_data p,
               task_push_gold_data root, end_point])"
  by (induction ps arbitrary: g) (auto simp: loop_body_def)

lemma tasks_dag_servier:
  "tasks (dag_servier root ps) =
     [start_point, end_point, task_push_gold_data root] @
     concat (map (\<lambda>p. [task_push_bronze_data p, task_push_silver_data p]) ps)"
  by (simp add: dag_servier_def fold_loop_body_tasks)

lemma edges_dag_servier:
  "edges (dag_servier root ps) =
     (\<Union>p \<in> set ps.
       {(task_id start_point, task_id (task_push_bronze_data p)),
        (task_id (task_push_bronze_data p), task_id (task_push_silver_data p)),
        (task_id (task_push_silver_data p), task_id (task_push_gold_data root)),
        (task_id (task_push_gold_data root), task_id end_point)})"
  by (simp add: dag_servier_def fold_loop_body_edges)

lemma pipeline_names:
  "name (path_file_clinical_trials root) = ''clinical_trials.csv''"
  "name (path_drugs root) = ''drugs.csv''"
  "name (path_file_pubmed_csv root) = ''pubmed.csv''"
  "name (path_file_pubmed_json root) = ''pubmed.json''"
  by (simp_all add: path_file_clinical_trials_def path_drugs_def path_file_pubmed_csv_def
      path_file_pubmed_json_def)


lemma pipeline_task_ids:
  "task_id (task_push_bronze_data (path_file_clinical_trials root)) =
     ''push_raw_data_to_gcs_clinical_trials_csv''"
  "task_id (task_push_bronze_data (path_drugs root)) = ''push_raw_data_to_gcs_drugs_csv''"
  "task_id (task_push_bronze_data (path_file_pubmed_csv root)) =
     ''push_raw_data_to_gcs_pubmed_csv''"
  "task_id (task_push_bronze_data (path_file_pubmed_json root)) =
     ''push_raw_data_to_gcs_pubmed_json''"
  "task_id (task_push_silver_data (path_file_clinical_trials root)) =
     ''push_silver_data_to_gcs_clinical_trials_csv''"
  "task_id (task_push_silver_data (path_drugs root)) = ''push_silver_data_to_gcs_drugs_csv''"
  "task_id (task_push_silver_data (path_file_pubmed_csv root)) =
     ''push_silver_data_to_gcs_pubmed_csv''"
  "task_id (task_push_silver_data (path_file_pubmed_json root)) =
     ''push_silver_data_to_gcs_pubmed_json''"
  "task_id (task_push_gold_data root) = ''push_gold_data_to_gcs_reconcialted_data''"
  "task_id start_point = ''start_point''"
  "task_id end_point = ''end_point''"
  by (simp_all add: task_push_bronze_data_def task_push_silver_data_def pipeline_names
      replace_def task_push_gold_data_def start_point_def end_point_def)

lemma run_order_upstream_first:
  "run_order E completed (pre @ t # post) \<Longrightarrow> (a, t) \<in> E \<Longrightarrow>
     a \<in> set completed \<union> set pre"
proof (induction pre arbitrary: completed)
  case Nil
  then show ?case by fastforce
next
  case (Cons x pre)
  from Cons.prems have "run_order E (completed @ [x]) (pre @ t # post)" by simp
  from Cons.IH [OF this Cons.prems(2)] show ?case by auto
qed

lemma card_all_paths_local: "card (all_paths_local root) = 4"
  by (simp add: all_paths_local_def path_file_clinical_trials_def path_drugs_def
      path_file_pubmed_csv_def path_file_pubmed_json_def child_def)

lemma pipeline_id_set:
  assumes "set ps = all_paths_local root"
  shows "set (map task_id (tasks (dag_servier root ps))) =
      {''start_point'', ''end_point'', ''push_gold_data_to_gcs_reconcialted_data'',
       ''push_raw_data_to_gcs_clinical_trials_csv'',
       ''push_silver_data_to_gcs_clinical_trials_csv'',
       ''push_raw_data_to_gcs_drugs_csv'', ''push_silver_data_to_gcs_drugs_csv'',
       ''push_raw_data_to_gcs_pubmed_csv'', ''push_silver_data_to_gcs_pubmed_csv'',
       ''push_raw_data_to_gcs_pubmed_json'', ''push_silver_data_to_gcs_pubmed_json''}"
proof -
  have "set (map task_id (tasks (dag_servier root ps))) =
      {task_id start_point, task_id end_point, task_id (task_push_gold_data root)} \<union>
      (\<Union>p \<in> set ps. {task_id (task_push_bronze_data p), task_id (task_push_silver_data p)})"
    by (auto simp: tasks_dag_servier)
  also have "\<dots> = {''start_point'', ''end_point'', ''push_gold_data_to_gcs_reconcialted_data'',
       ''push_raw_data_to_gcs_clinical_trials_csv'',
       ''push_silver_data_to_gcs_clinical_trials_csv'',
       ''push_raw_data_to_gcs_drugs_csv'', ''push_silver_data_to_gcs_drugs_csv'',
       ''push_raw_data_to_gcs_pubmed_csv'', ''push_silver_data_to_gcs_pubmed_csv'',
       ''push_raw_data_to_gcs_pubmed_json'', ''push_silver_data_to_gcs_pubmed_json''}"
    unfolding assms all_paths_local_def
    by (simp add: pipeline_task_ids insert_commute)
  finally show ?thesis .
qed

lemma pipeline_ids_distinct:
  assumes "distinct ps" and "set ps = all_paths_local root"
  shows "distinct (map task_id (tasks (dag_servier root ps)))"
proof (rule card_distinct)
  have "length ps = 4"
    using assms card_all_paths_local [of root] distinct_card [of ps] by simp
  then have len: "length (map task_id (tasks (dag_servier root ps))) = 11"
    by (simp add: tasks_dag_servier length_concat comp_def sum_list_triv)
  have "card (set (map task_id (tasks (dag_servier root ps)))) = 11"
    unfolding pipeline_id_set [OF assms(2)] by simp
  with len show "card (set (map task_id (tasks (dag_servier root ps)))) =
      length (map task_id (tasks (dag_servier root ps)))"
    by simp
qed

lemma run_order_upstream_earlier:
  "run_order E [] (pre @ t # post) \<Longrightarrow> (a, t) \<in> E \<Longrightarrow> a \<in> set pre"
  using run_order_upstream_first [of E "[]" pre t post a] by simp

text \<open>
  C8. Whatever the order in which the loop meets the four source files, the graph has
  pairwise distinct task ids, and for each source file a bronze task directly upstream of
  a silver task directly upstream of the gold task, which is directly upstream of the
  end point. So in every run the scheduler allows, the gold task starts only after all
  four silver tasks (and all four bronze tasks) have completed, each silver task only
  after its bronze task, and the end point only after the gold task. The gold task
  carries the reconciliation operator on the four source files and is the only task of
  the graph that does; the bronze and the silver task of a source file carry the bronze
  and the silver operator on that file, and the graph has no other bronze or silver
  task; the start and the end point carry no work.
\<close>

theorem C8_reconciliation_after_every_validation:
  assumes "distinct ps" and "set ps = all_paths_local root"
  shows "distinct (map task_id (tasks (dag_servier root ps)))
    \<and> (\<forall>t \<in> set (tasks (dag_servier root ps)).
          (\<exists>g. operator t = Gold g) \<longrightarrow> t = task_push_gold_data root)
    \<and> task_push_gold_data root \<in> set (tasks (dag_servier root ps))
    \<and> end_point \<in> set (tasks (dag_servier root ps))
    \<and> (\<forall>p \<in> all_paths_local root.
          task_push_bronze_data p \<in> set (tasks (dag_servier root ps)) \<and>
          task_push_silver_data p \<in> set (tasks (dag_servier root ps)) \<and>
          (task_id (task_push_bronze_data p), task_id (task_push_silver_data p))
            \<in> edges (dag_servier root ps) \<and>
          (task_id (task_push_silver_data p), task_id (task_push_gold_data root))
            \<in> edges (dag_servier root ps))
    \<and> (task_id (task_push_gold_data root), task_id end_point) \<in> edges (dag_servier root ps)
    \<and> (\<forall>pre post.
          run_order (edges (dag_servier root ps)) []
            (pre @ task_id (task_push_gold_data root) # post) \<longrightarrow>
          (\<forall>p \<in> all_paths_local root.
             task_id (task_push_silver_data p) \<in> set pre \<and>
             task_id (task_push_bronze_data p) \<in> set pre))
    \<and> (\<forall>p \<in> all_paths_local root. \<forall>pre post.
          run_order (edges (dag_servier root ps)) []
            (pre @ task_id (task_push_silver_data p) # post) \<longrightarrow>
          task_id (task_push_bronze_data p) \<in> set pre)
    \<and> (\<forall>pre post.
          run_order (edges (dag_servier root ps)) [] (pre @ task_id end_point # post) \<longrightarrow>
          task_id (task_push_gold_data root) \<in> set pre)
    \<and> operator (task_push_gold_data root) =
        Gold \<lparr>gold_bucket_name = ''servier-gold'',
              path_elements_drug = path_drugs root,
              path_elements_pubmed_json = path_file_pubmed_json root,
              path_elements_pubmed_csv = path_file_pubmed_csv root,
              path_elements_clinical_trials = path_file_clinical_trials root\<rparr>
    \<and> filter (\<lambda>t. \<exists>g. operator t = Gold g) (tasks (dag_servier root ps)) =
        [task_push_gold_data root]
    \<and> (\<forall>p \<in> all_paths_local root.
          operator (task_push_bronze_data p) =
            Bronze \<lparr>type_of_operation = ''push'', bronze_bucket_name = ''servier-bronze'',
                    bronze_local_file_name = str p,
                    gcs_file_name = stem p @ ''/'' @ name p\<rparr> \<and>
          operator (task_push_silver_data p) =
            Silver \<lparr>type_of_schema = stem p, bucket_name = ''servier-silver'',
                    local_file_name = p, prefix_gcs_file_name = stem p\<rparr>)
    \<and> (\<forall>t \<in> set (tasks (dag_servier root ps)).
          (\<exists>s. operator t = Silver s) \<longrightarrow>
          (\<exists>p \<in> all_paths_local root. t = task_push_silver_data p))
    \<and> (\<forall>t \<in> set (tasks (dag_servier root ps)).
          (\<exists>b. operator t = Bronze b) \<longrightarrow>
          (\<exists>p \<in> all_paths_local root. t = task_push_bronze_data p))
    \<and> operator start_point = DummyOperator \<and> operator end_point = DummyOperator"
proof -
  let ?D = "dag_servier root ps"
  let ?gold = "task_id (task_push_gold_data root)"
  have ne: "ps \<noteq> []"
    using assms(2) by (auto simp: all_paths_local_def)
  have e_bs: "(task_id (task_push_bronze_data p), task_id (task_push_silver_data p)) \<in> edges ?D"
    and e_sg: "(task_id (task_push_silver_data p), ?gold) \<in> edges ?D"
    if "p \<in> all_paths_local root" for p
    using that assms(2) by (auto simp: edges_dag_servier)
  have e_ge: "(?gold, task_id end_point) \<in> edges ?D"
    using ne by (cases ps) (auto simp: edges_dag_servier)
  have bronze_first: "task_id (task_push_bronze_data p) \<in> set pre"
    if "p \<in> all_paths_local root"
      and "run_order (edges ?D) [] (pre @ task_id (task_push_silver_data p) # post)"
    for p pre post
    using that(2) e_bs [OF that(1)] by (rule run_order_upstream_earlier)
  have silver_first: "task_id (task_push_silver_data p) \<in> set pre
      \<and> task_id (task_push_bronze_data p) \<in> set pre"
    if p: "p \<in> all_paths_local root"
      and run: "run_order (edges ?D) [] (pre @ ?gold # post)"
    for p pre post
  proof -
    from run e_sg [OF p] have s: "task_id (task_push_silver_data p) \<in> set pre"
      by (rule run_order_upstream_earlier)
    then obtain pre1 post1 where pre: "pre = pre1 @ task_id (task_push_silver_data p) # post1"
      by (auto simp: in_set_conv_decomp)
    from run have "run_order (edges ?D) []
        (pre1 @ task_id (task_push_silver_data p) # (post1 @ ?gold # post))"
      by (simp add: pre)
    with p have "task_id (task_push_bronze_data p) \<in> set pre1"
      by (rule bronze_first)
    with s show ?thesis by (simp add: pre)
  qed
  have gold_first: "?gold \<in> set pre"
    if "run_order (edges ?D) [] (pre @ task_id end_point # post)" for pre post
    using that e_ge by (rule run_order_upstream_earlier)
  have only_gold: "t = task_push_gold_data root"
    if "t \<in> set (tasks ?D)" "\<exists>g. operator t = Gold g" for t
    using that
    by (auto simp: tasks_dag_servier start_point_def end_point_def
        task_push_bronze_data_def task_push_silver_data_def)
  have members: "task_push_bronze_data p \<in> set (tasks ?D)"
    "task_push_silver_data p \<in> set (tasks ?D)" if "p \<in> all_paths_local root" for p
    using that assms(2) by (auto simp: tasks_dag_servier)
  have fixed: "task_push_gold_data root \<in> set (tasks ?D)" "end_point \<in> set (tasks ?D)"
    by (simp_all add: tasks_dag_servier)
  have gold_op: "operator (task_push_gold_data root) =
        Gold \<lparr>gold_bucket_name = ''servier-gold'',
              path_elements_drug = path_drugs root,
              path_elements_pubmed_json = path_file_pubmed_json root,
              path_elements_pubmed_csv = path_file_pubmed_csv root,
              path_elements_clinical_trials = path_file_clinical_trials root\<rparr>"
    by (simp add: task_push_gold_data_def)
  have no_gold: "filter (\<lambda>t. \<exists>g. operator t = Gold g)
      (concat (map (\<lambda>p. [task_push_bronze_data p, task_push_silver_data p]) qs)) = []"
    for qs
    by (induction qs) (simp_all add: task_push_bronze_data_def task_push_silver_data_def)
  have one_gold: "filter (\<lambda>t. \<exists>g. operator t = Gold g) (tasks ?D) =
      [task_push_gold_data root]"
    by (simp add: tasks_dag_servier no_gold gold_op start_point_def end_point_def)
  have file_ops: "operator (task_push_bronze_data p) =
            Bronze \<lparr>type_of_operation = ''push'', bronze_bucket_name = ''servier-bronze'',
                    bronze_local_file_name = str p,
                    gcs_file_name = stem p @ ''/'' @ name p\<rparr> \<and>
          operator (task_push_silver_data p) =
            Silver \<lparr>type_of_schema = stem p, bucket_name = ''servier-silver'',
                    local_file_name = p, prefix_gcs_file_name = stem p\<rparr>" for p
    by (simp add: task_push_bronze_data_def task_push_silver_data_def)
  have only_silver: "\<exists>p \<in> all_paths_local root. t = task_push_silver_data p"
    if "t \<in> set (tasks ?D)" "\<exists>s. operator t = Silver s" for t
    using that assms(2) gold_op file_ops
    by (auto simp: tasks_dag_servier start_point_def end_point_def)
  have only_bronze: "\<exists>p \<in> all_paths_local root. t = task_push_bronze_data p"
    if "t \<in> set (tasks ?D)" "\<exists>b. operator t = Bronze b" for t
    using that assms(2) gold_op file_ops
    by (auto simp: tasks_dag_servier start_point_def end_point_def)
  have dummies: "operator start_point = DummyOperator" "operator end_point = DummyOperator"
    by (simp_all add: start_point_def end_point_def)
  have shape: "distinct (map task_id (tasks ?D))
    \<and> (\<forall>t \<in> set (tasks ?D). (\<exists>g. operator t = Gold g) \<longrightarrow> t = task_push_gold_data root)
    \<and> task_push_gold_data root \<in> set (tasks ?D)
    \<and> end_point \<in> set (tasks ?D)
    \<and> (\<forall>p \<in> all_paths_local root.
          task_push_bronze_data p \<in> set (tasks ?D) \<and>
          task_push_silver_data p \<in> set (tasks ?D) \<and>
          (task_id (task_push_bronze_data p), task_id (task_push_silver_data p))
            \<in> edges ?D \<and>
          (task_id (task_push_silver_data p), ?gold) \<in> edges ?D)
    \<and> (?gold, task_id end_point) \<in> edges ?D"
    using pipeline_ids_distinct [OF assms] only_gold fixed members e_bs e_sg e_ge
    by blast
  have order: "(\<forall>pre post.
          run_order (edges ?D) [] (pre @ ?gold # post) \<longrightarrow>
          (\<forall>p \<in> all_paths_local root.
             task_id (task_push_silver_data p) \<in> set pre \<and>
             task_id (task_push_bronze_data p) \<in> set pre))
    \<and> (\<forall>p \<in> all_paths_local root. \<forall>pre post.
          run_order (edges ?D) [] (pre @ task_id (task_push_silver_data p) # post) \<longrightarrow>
          task_id (task_push_bronze_data p) \<in> set pre)
    \<and> (\<forall>pre post.
          run_order (edges ?D) [] (pre @ task_id end_point # post) \<longrightarrow> ?gold \<in> set pre)"
    using silver_first bronze_first gold_first by blast
  have ops: "(\<forall>p \<in> all_paths_local root.
          operator (task_push_bronze_data p) =
            Bronze \<lparr>type_of_operation = ''push'', bronze_bucket_name = ''servier-bronze'',
                    bronze_local_file_name = str p,
                    gcs_file_name = stem p @ ''/'' @ name p\<rparr> \<and>
          operator (task_push_silver_data p) =
            Silver \<lparr>type_of_schema = stem p, bucket_name = ''servier-silver'',
                    local_file_name = p, prefix_gcs_file_name = stem p\<rparr>)
    \<and> (\<forall>t \<in> set (tasks ?D).
          (\<exists>s. operator t = Silver s) \<longrightarrow>
          (\<exists>p \<in> all_paths_local root. t = task_push_silver_data p))
    \<and> (\<forall>t \<in> set (tasks ?D).
          (\<exists>b. operator t = Bronze b) \<longrightarrow>
          (\<exists>p \<in> all_paths_local root. t = task_push_bronze_data p))"
    using file_ops only_silver only_bronze by blast
  show ?thesis
    using shape order gold_op one_gold ops dummies
    by (elim conjE) (intro conjI, assumption+)
qed

lemma example_order_paths:
  "distinct example_order" "set example_order = all_paths_local [''srv'']"
  by (simp_all add: example_order_def all_paths_local_def path_file_clinical_trials_def
      path_drugs_def path_file_pubmed_csv_def path_file_pubmed_json_def child_def)

lemma example_run:
  "run_order (edges (dag_servier [''srv''] example_order)) []
     ([''start_point'',
       ''push_raw_data_to_gcs_pubmed_json'', ''push_raw_data_to_gcs_drugs_csv'',
       ''push_silver_data_to_gcs_drugs_csv'', ''push_raw_data_to_gcs_clinical_trials_csv'',
       ''push_raw_data_to_gcs_pubmed_csv'', ''push_silver_data_to_gcs_pubmed_json'',
       ''push_silver_data_to_gcs_pubmed_csv'',
       ''push_silver_data_to_gcs_clinical_trials_csv''] @
      ''push_gold_data_to_gcs_reconcialted_data'' # [''end_point''])"
  by code_simp

theorem C8_reconciliation_after_every_validation_witness:
  "distinct example_order \<and> set example_order = all_paths_local [''srv'']
   \<and> run_order (edges (dag_servier [''srv''] example_order)) []
     ([''start_point'',
       ''push_raw_data_to_gcs_pubmed_json'', ''push_raw_data_to_gcs_drugs_csv'',
       ''push_silver_data_to_gcs_drugs_csv'', ''push_raw_data_to_gcs_clinical_trials_csv'',
       ''push_raw_data_to_gcs_pubmed_csv'', ''push_silver_data_to_gcs_pubmed_json'',
       ''push_silver_data_to_gcs_pubmed_csv'',
       ''push_silver_data_to_gcs_clinical_trials_csv''] @
      ''push_gold_data_to_gcs_reconcialted_data'' # [''end_point''])
   \<and> \<not> run_order (edges (dag_servier [''srv''] example_order)) []
     ([''start_point'', ''push_raw_data_to_gcs_drugs_csv''] @
      ''push_gold_data_to_gcs_reconcialted_data'' # [])
   \<and> (''push_silver_data_to_gcs_drugs_csv'', ''push_gold_data_to_gcs_reconcialted_data'')
       \<in> edges (dag_servier [''srv''] example_order)
   \<and> (\<exists>g. operator (task_push_gold_data [''srv'']) = Gold g
         \<and> path_elements_drug g = [''srv'', ''file'', ''drugs.csv''])
   \<and> (\<exists>s. operator (task_push_silver_data (path_drugs [''srv''])) = Silver s
         \<and> local_file_name s = [''srv'', ''file'', ''drugs.csv''])
   \<and> length (filter (\<lambda>t. \<exists>g. operator t = Gold g)
        (tasks (dag_servier [''srv''] example_order))) = 1"
proof -
  note graph = C8_reconciliation_after_every_validation [OF example_order_paths]
  have p: "path_drugs [''srv''] \<in> all_paths_local [''srv'']"
    by (simp add: all_paths_local_def)
  have gid: "task_id (task_push_gold_data [''srv'']) = ''push_gold_data_to_gcs_reconcialted_data''"
    and sid: "task_id (task_push_silver_data (path_drugs [''srv''])) =
      ''push_silver_data_to_gcs_drugs_csv''"
    by (simp_all add: pipeline_task_ids)
  from graph p have
    "(task_id (task_push_silver_data (path_drugs [''srv''])),
      task_id (task_push_gold_data [''srv''])) \<in> edges (dag_servier [''srv''] example_order)"
    by blast
  then have edge: "(''push_silver_data_to_gcs_drugs_csv'',
      ''push_gold_data_to_gcs_reconcialted_data'') \<in> edges (dag_servier [''srv''] example_order)"
    by (simp only: gid sid)
  have early: "\<not> run_order (edges (dag_servier [''srv''] example_order)) []
     ([''start_point'', ''push_raw_data_to_gcs_drugs_csv''] @
      ''push_gold_data_to_gcs_reconcialted_data'' # [])"
  proof
    assume "run_order (edges (dag_servier [''srv''] example_order)) []
     ([''start_point'', ''push_raw_data_to_gcs_drugs_csv''] @
      ''push_gold_data_to_gcs_reconcialted_data'' # [])"
    then have "run_order (edges (dag_servier [''srv''] example_order)) []
     ([''start_point'', ''push_raw_data_to_gcs_drugs_csv''] @
      task_id (task_push_gold_data [''srv'']) # [])"
      by (simp only: gid)
    with graph p have "task_id (task_push_silver_data (path_drugs [''srv'']))
        \<in> set [''start_point'', ''push_raw_data_to_gcs_drugs_csv'']"
      by blast
    then show False
      by (simp add: sid)
  qed
  from graph have "operator (task_push_gold_data [''srv'']) =
        Gold \<lparr>gold_bucket_name = ''servier-gold'',
              path_elements_drug = path_drugs [''srv''],
              path_elements_pubmed_json = path_file_pubmed_json [''srv''],
              path_elements_pubmed_csv = path_file_pubmed_csv [''srv''],
              path_elements_clinical_trials = path_file_clinical_trials [''srv'']\<rparr>"
    by (elim conjE)
  then have gold_op: "\<exists>g. operator (task_push_gold_data [''srv'']) = Gold g
         \<and> path_elements_drug g = [''srv'', ''file'', ''drugs.csv'']"
    by (simp add: path_drugs_def child_def)
  from graph have "\<forall>p \<in> all_paths_local [''srv''].
          operator (task_push_bronze_data p) =
            Bronze \<lparr>type_of_operation = ''push'', bronze_bucket_name = ''servier-bronze'',
                    bronze_local_file_name = str p,
                    gcs_file_name = stem p @ ''/'' @ name p\<rparr> \<and>
          operator (task_push_silver_data p) =
            Silver \<lparr>type_of_schema = stem p, bucket_name = ''servier-silver'',
                    local_file_name = p, prefix_gcs_file_name = stem p\<rparr>"
    by (elim conjE)
  with p have silver_op: "\<exists>s. operator (task_push_silver_data (path_drugs [''srv''])) = Silver s
         \<and> local_file_name s = [''srv'', ''file'', ''drugs.csv'']"
    by (simp add: path_drugs_def child_def)
  from graph have "filter (\<lambda>t. \<exists>g. operator t = Gold g)
        (tasks (dag_servier [''srv''] example_order)) = [task_push_gold_data [''srv'']]"
    by (elim conjE)
  then have one: "length (filter (\<lambda>t. \<exists>g. operator t = Gold g)
        (tasks (dag_servier [''srv''] example_order))) = 1"
    by simp
  from edge early example_run example_order_paths gold_op silver_op one show ?thesis
    by (intro conjI)
qed




end
